theory Spec2Isabelle
  imports Complex_Main "HOL-Library.Multiset"
begin

section \<open>Data model of the generation hook (useGeneration)\<close>

text \<open>
  The types follow the TypeScript interfaces of the hook. A value that may be
  \<^verbatim>\<open>null\<close> or \<^verbatim>\<open>undefined\<close> is an \<open>option\<close>. Field names that several interfaces
  share (\<^verbatim>\<open>scene_id\<close>, \<^verbatim>\<open>videoUrl\<close>, \<^verbatim>\<open>text\<close>) carry a prefix, since a record field is
  a constant of the theory. Numbers that are only passed through to the server are reals;
  \<^verbatim>\<open>scene_id\<close>, which the code compares, is an integer.
\<close>

datatype Phase =
    Idle | Script_review | Running | Cuts_review | Composing | Videos_review
  | Voices_review | Transition_edit | Finalizing | Complete | Error

record TransitionSetting =
  audioGap :: real

record ScriptScene =
  scene_id :: int
  scene_text :: string
  image_prompt :: string
  duration_sec :: real

record Script =
  title :: string
  scenes :: "ScriptScene list"

record CutImage =
  img_scene_id :: int
  imageUrl :: string

record VideoClip =
  clip_scene_id :: int
  clip_videoUrl :: string

record VoiceClip =
  voice_scene_id :: int
  voice_text :: string
  voiceUrl :: string

text \<open>
  A decoded stream record (\<^verbatim>\<open>data = JSON.parse(jsonStr)\<close>). It is untyped in the source;
  the fields are the ones of \<^verbatim>\<open>ProgressEvent\<close> and the payloads the loop reads
  (\<^verbatim>\<open>data.images\<close>, \<^verbatim>\<open>data.videos\<close>, \<^verbatim>\<open>data.voices\<close>). A field that is absent is \<open>None\<close>.
\<close>

record ProgressEvent =
  step :: "int option"
  stepName :: "string option"
  totalSteps :: "int option"
  status :: "string option"
  detail :: "string option"
  scene :: "int option"
  totalScenes :: "int option"
  ev_videoUrl :: "string option"
  ev_images :: "CutImage list option"
  ev_videos :: "VideoClip list option"
  ev_voices :: "VoiceClip list option"

record GenerationState =
  phase :: Phase
  runId :: "string option"
  script :: "Script option"
  originalScript :: "Script option"
  images :: "CutImage list option"
  videos :: "VideoClip list option"
  voices :: "VoiceClip list option"
  transitions :: "TransitionSetting list option"
  progress :: "ProgressEvent option"
  videoUrl :: "string option"
  error :: "string option"

definition INITIAL_STATE :: GenerationState where
  "INITIAL_STATE =
     \<lparr>phase = Idle, runId = None, script = None, originalScript = None, images = None,
      videos = None, voices = None, transitions = None, progress = None, videoUrl = None,
      error = None\<rparr>"

text \<open>
  JavaScript truthiness of a value that is a string, \<^verbatim>\<open>null\<close> or \<^verbatim>\<open>undefined\<close>: the empty
  string is falsy too. An object or an array is truthy whenever it is not \<^verbatim>\<open>null\<close>, also
  when it is empty; that test is written \<open>x \<noteq> None\<close> below.
\<close>

definition truthy_str :: "string option \<Rightarrow> bool" where
  "truthy_str v = (case v of None \<Rightarrow> False | Some s \<Rightarrow> s \<noteq> [])"

text \<open>\<^verbatim>\<open>a || fallback\<close> on strings.\<close>

definition or_else :: "string option \<Rightarrow> string \<Rightarrow> string" where
  "or_else v fallback = (case v of None \<Rightarrow> fallback | Some s \<Rightarrow> if s = [] then fallback else s)"

text \<open>An exception value: \<^verbatim>\<open>err.name\<close> and \<^verbatim>\<open>err.message\<close>.\<close>

datatype js_error = JsError (err_name: string) (err_message: "string option")

text \<open>\<^verbatim>\<open>new Error(message)\<close>.\<close>

definition new_Error :: "string \<Rightarrow> js_error" where
  "new_Error msg = JsError ''Error'' (Some msg)"

text \<open>Decimal rendering of \<^verbatim>\<open>res.status\<close> in a template literal.\<close>

function string_of_nat :: "nat \<Rightarrow> string" where
  "string_of_nat n =
     (if n < 10 then [char_of (48 + n)]
      else string_of_nat (n div 10) @ [char_of (48 + n mod 10)])"
  by pat_completeness auto
termination
  by (relation "measure id") auto

declare string_of_nat.simps [simp del]

section \<open>What the environment answers\<close>

text \<open>
  The hook talks to the server through \<^verbatim>\<open>fetch\<close>. The answers are inputs of the model:
  a POST either rejects, or resolves to a response with \<^verbatim>\<open>res.ok\<close> and \<^verbatim>\<open>res.status\<close>;
  the progress request either rejects, or resolves to a response with \<^verbatim>\<open>ok\<close> and with or
  without a body.
\<close>

datatype post_outcome = Responded bool nat | FetchThrows js_error

datatype conn_outcome = ConnResponded bool bool | ConnThrows js_error

text \<open>
  One line of the stream after the buffer has been split at newlines: a line that does not
  start with \<^verbatim>\<open>data:\<close>, a \<^verbatim>\<open>data:\<close> line whose payload is empty after trimming, a payload
  on which the \<^verbatim>\<open>try\<close> block throws (\<^verbatim>\<open>JSON.parse\<close> fails, or the payload is \<^verbatim>\<open>null\<close>), or
  a decoded record.
\<close>

datatype sse_line = NotData | EmptyData | Malformed | Json ProgressEvent

text \<open>The requests the hook issues, in the order of issue (the output of the model).\<close>

record StartParams =
  theme :: string
  voice_id :: "string option"
  duration :: "real option"
  mock :: "bool option"
  tone :: "string option"
  first_person :: "string option"
  second_person :: "string option"
  referenceImages :: "string list option"
  reference_script :: "string option"

record Telop =
  enabled :: bool
  font_size :: real
  font_style :: string
  font_color :: string
  shadow_color :: string
  shadow_opacity :: real
  shadow_distance :: real
  shadow_angle :: real

record VoiceData =
  texts :: "(string \<times> string) list"
  emotions :: "(string \<times> string) list option"
  speed :: "real option"
  volume :: "real option"

datatype request =
    PostGenerate bool StartParams
  | PostContinue string Script "int list option"
  | PostCompose string "int option list"
  | PostGenerateVoices string
  | PostRegenerateImages string "(int \<times> string) list"
  | PostRegenerateVideos string "(int \<times> string) list"
  | PostFinalize string "TransitionSetting list option" "Telop option"
  | PostRegenerateVoices string VoiceData
  | PostRestore string
  | GetProgress string

section \<open>The diff of confirm\<close>

text \<open>
  The \<^verbatim>\<open>for\<close> loop of \<^verbatim>\<open>confirm\<close> over \<^verbatim>\<open>editedScenes\<close>: the accumulator is the array
  \<^verbatim>\<open>changedSceneIds\<close>, \<^verbatim>\<open>push\<close> appends. \<^verbatim>\<open>Array.find\<close> returns the first match.
\<close>

fun changedLoop :: "ScriptScene list \<Rightarrow> ScriptScene list \<Rightarrow> int list \<Rightarrow> int list" where
  "changedLoop originalScenes [] changed = changed"
| "changedLoop originalScenes (edited # rest) changed =
     (case find (\<lambda>s. scene_id s = scene_id edited) originalScenes of
        None \<Rightarrow> changedLoop originalScenes rest (changed @ [scene_id edited])
      | Some original \<Rightarrow>
          if image_prompt original \<noteq> image_prompt edited
          then changedLoop originalScenes rest (changed @ [scene_id edited])
          else changedLoop originalScenes rest changed)"

text \<open>
  The value of the variable \<^verbatim>\<open>changedSceneIds\<close> after the \<^verbatim>\<open>if\<close> block: \<^verbatim>\<open>undefined\<close>
  (\<open>None\<close>) unless both \<^verbatim>\<open>state.originalScript\<close> and \<^verbatim>\<open>state.images\<close> are set.
\<close>

definition changedSceneIds :: "GenerationState \<Rightarrow> Script \<Rightarrow> int list option" where
  "changedSceneIds state editedScript =
     (case originalScript state of
        None \<Rightarrow> None
      | Some orig \<Rightarrow>
          (case images state of
             None \<Rightarrow> None
           | Some imgs \<Rightarrow> Some (changedLoop (scenes orig) (scenes editedScript) [])))"

section \<open>The hook: React state, the abort reference, connections\<close>

text \<open>
  The options of \<^verbatim>\<open>connectSSE\<close>. A callback of the source calls \<^verbatim>\<open>setState\<close> with an
  updater; here it is that updater, a function of the payload and the state.
\<close>

record SSEOpts =
  onImagesReady :: "(CutImage list option \<Rightarrow> GenerationState \<Rightarrow> GenerationState) option"
  onVideosReady :: "(VideoClip list option \<Rightarrow> GenerationState \<Rightarrow> GenerationState) option"
  onVoicesReady :: "(VoiceClip list option \<Rightarrow> GenerationState \<Rightarrow> GenerationState) option"

definition no_opts :: SSEOpts where
  "no_opts = \<lparr>onImagesReady = None, onVideosReady = None, onVoicesReady = None\<rparr>"

text \<open>
  Every call of \<^verbatim>\<open>connectSSE\<close> creates one \<^verbatim>\<open>AbortController\<close>. The store \<open>conns\<close> holds
  them by address (the index in the list): whether \<^verbatim>\<open>abort()\<close> was called on it, and the
  options of the \<^verbatim>\<open>connectSSE\<close> call that still reads under its signal (\<open>None\<close> once that
  call has returned or thrown). \<open>abortRef\<close> is \<^verbatim>\<open>abortRef.current\<close>.
\<close>

record Connection =
  aborted :: bool
  consumer :: "SSEOpts option"

record hook =
  state :: GenerationState
  abortRef :: "nat option"
  conns :: "Connection list"
  requests :: "request list"

definition initial_hook :: hook where
  "initial_hook = \<lparr>state = INITIAL_STATE, abortRef = None, conns = [], requests = []\<rparr>"

definition setState :: "(GenerationState \<Rightarrow> GenerationState) \<Rightarrow> hook \<Rightarrow> hook" where
  "setState f h = h\<lparr>state := f (state h)\<rparr>"

definition issue :: "request \<Rightarrow> hook \<Rightarrow> hook" where
  "issue r h = h\<lparr>requests := requests h @ [r]\<rparr>"

text \<open>A connection is live when its consumer still reads and its signal is not aborted.\<close>

definition live :: "hook \<Rightarrow> nat \<Rightarrow> bool" where
  "live h c =
     (c < length (conns h) \<and> consumer (conns h ! c) \<noteq> None \<and> \<not> aborted (conns h ! c))"

text \<open>\<^verbatim>\<open>abortRef.current?.abort()\<close>\<close>

definition abortHeld :: "hook \<Rightarrow> hook" where
  "abortHeld h =
     (case abortRef h of
        None \<Rightarrow> h
      | Some c \<Rightarrow>
          if c < length (conns h)
          then h\<lparr>conns := (conns h)[c := (conns h ! c)\<lparr>aborted := True\<rparr>]\<rparr>
          else h)"

text \<open>
  The \<^verbatim>\<open>catch\<close> block that \<^verbatim>\<open>start\<close> and the seven streamed actions share.
\<close>

definition catchError :: "js_error \<Rightarrow> hook \<Rightarrow> hook" where
  "catchError err h =
     (if err_name err = ''AbortError'' then h
      else setState (\<lambda>s. s\<lparr>phase := Error,
                             error := Some (or_else (err_message err) ''Unknown error'')\<rparr>) h)"

subsection \<open>connectSSE\<close>

text \<open>
  The head of \<^verbatim>\<open>connectSSE\<close>, up to the first \<^verbatim>\<open>reader.read()\<close>: a new controller is
  stored in \<^verbatim>\<open>abortRef.current\<close> (the one held before is overwritten, \<^verbatim>\<open>abort()\<close> is not
  called on it), the progress request is issued, and a response that is not ok or has no
  body throws. The result is the hook and the exception thrown, if any.
\<close>

definition connectSSE :: "string \<Rightarrow> SSEOpts \<Rightarrow> conn_outcome \<Rightarrow> hook \<Rightarrow> hook \<times> js_error option" where
  "connectSSE rid opts co h =
     (let abort = length (conns h);
          h1 = issue (GetProgress rid)
                 (h\<lparr>abortRef := Some abort,
                    conns := conns h @ [\<lparr>aborted = False, consumer = None\<rparr>]\<rparr>)
      in case co of
           ConnThrows err \<Rightarrow> (h1, Some err)
         | ConnResponded ok body \<Rightarrow>
             if \<not> ok \<or> \<not> body
             then (h1, Some (new_Error ''Failed to connect to progress stream''))
             else (h1\<lparr>conns := (conns h1)[abort := \<lparr>aborted = False, consumer = Some opts\<rparr>]\<rparr>,
                   None))"

text \<open>
  The body of the \<^verbatim>\<open>try\<close> block for a decoded record \<^verbatim>\<open>data\<close>. The second component
  says whether the function executed \<^verbatim>\<open>return\<close>.
\<close>

definition handleRecord :: "SSEOpts \<Rightarrow> ProgressEvent \<Rightarrow> GenerationState \<Rightarrow> GenerationState \<times> bool" where
  "handleRecord opts data s =
     (if status data = Some ''complete'' \<and> truthy_str (ev_videoUrl data)
      then (s\<lparr>phase := Complete, videoUrl := ev_videoUrl data, progress := None\<rparr>, True)
      else if status data = Some ''images_ready'' \<and> onImagesReady opts \<noteq> None
      then (the (onImagesReady opts) (ev_images data) s, True)
      else if status data = Some ''videos_ready'' \<and> onVideosReady opts \<noteq> None
      then (the (onVideosReady opts) (ev_videos data) s, True)
      else if status data = Some ''voices_ready'' \<and> onVoicesReady opts \<noteq> None
      then (the (onVoicesReady opts) (ev_voices data) s, True)
      else if status data = Some ''error''
      then (s\<lparr>phase := Error, error := Some (or_else (detail data) ''Unknown error'')\<rparr>, True)
      else (s\<lparr>progress := Some data\<rparr>, False))"

text \<open>The \<^verbatim>\<open>for (const line of lines)\<close> loop: a \<^verbatim>\<open>return\<close> leaves it at once.\<close>

fun forLines :: "SSEOpts \<Rightarrow> sse_line list \<Rightarrow> GenerationState \<Rightarrow> GenerationState \<times> bool" where
  "forLines opts [] s = (s, False)"
| "forLines opts (Json data # rest) s =
     (case handleRecord opts data s of
        (s', True) \<Rightarrow> (s', True)
      | (s', False) \<Rightarrow> forLines opts rest s')"
| "forLines opts (other # rest) s = forLines opts rest s"

text \<open>
  The \<^verbatim>\<open>while (true)\<close> loop over the chunks that \<^verbatim>\<open>reader.read()\<close> delivers, each given
  by its complete lines; the list ends where \<^verbatim>\<open>done\<close> is true (\<^verbatim>\<open>break\<close>). The second
  component says whether the loop was left by \<^verbatim>\<open>return\<close>.
\<close>

fun whileRead :: "SSEOpts \<Rightarrow> sse_line list list \<Rightarrow> GenerationState \<Rightarrow> GenerationState \<times> bool" where
  "whileRead opts [] s = (s, False)"
| "whileRead opts (lines # chunks) s =
     (case forLines opts lines s of
        (s', True) \<Rightarrow> (s', True)
      | (s', False) \<Rightarrow> whileRead opts chunks s')"

subsection \<open>Stream events\<close>

text \<open>
  Between two reads other actions may run, so one read is one event of the model. On a
  connection whose signal is aborted the pending read rejects with an \<^verbatim>\<open>AbortError\<close>, which
  the \<^verbatim>\<open>catch\<close> block of the action swallows: the call ends, the state is untouched.
\<close>

definition dropConsumer :: "nat \<Rightarrow> hook \<Rightarrow> hook" where
  "dropConsumer c h = h\<lparr>conns := (conns h)[c := (conns h ! c)\<lparr>consumer := None\<rparr>]\<rparr>"

text \<open>The read on connection \<open>c\<close> resolves with a chunk.\<close>

definition deliver :: "nat \<Rightarrow> sse_line list \<Rightarrow> hook \<Rightarrow> hook" where
  "deliver c lines h =
     (if c < length (conns h) then
        (case consumer (conns h ! c) of
           None \<Rightarrow> h
         | Some opts \<Rightarrow>
             if aborted (conns h ! c) then dropConsumer c h
             else (case forLines opts lines (state h) of
                     (s', True) \<Rightarrow> dropConsumer c (h\<lparr>state := s'\<rparr>)
                   | (s', False) \<Rightarrow> h\<lparr>state := s'\<rparr>))
      else h)"

text \<open>The read on connection \<open>c\<close> resolves with \<^verbatim>\<open>done\<close>.\<close>

definition streamDone :: "nat \<Rightarrow> hook \<Rightarrow> hook" where
  "streamDone c h =
     (if c < length (conns h) \<and> consumer (conns h ! c) \<noteq> None then dropConsumer c h else h)"

text \<open>
  The read on connection \<open>c\<close> rejects with \<open>err\<close>; the streamed actions catch it with
  \<open>catchError\<close>.
\<close>

definition streamFails :: "nat \<Rightarrow> js_error \<Rightarrow> hook \<Rightarrow> hook" where
  "streamFails c err h =
     (if c < length (conns h) \<and> consumer (conns h ! c) \<noteq> None then
        (if aborted (conns h ! c) then dropConsumer c h
         else catchError err (dropConsumer c h))
      else h)"

section \<open>The actions of the hook\<close>

text \<open>
  An action is modelled from its call up to the point where \<^verbatim>\<open>connectSSE\<close> waits for the
  first chunk; the answers of the server to the requests it issues on the way are
  arguments. What the closure calls \<^verbatim>\<open>state\<close> is the state of the hook at the call.
\<close>

text \<open>
  The \<^verbatim>\<open>try\<close>/\<^verbatim>\<open>catch\<close> block that the seven streamed actions share: the POST, the
  \<^verbatim>\<open>throw\<close> on a response that is not ok, \<^verbatim>\<open>await connectSSE(runId, opts)\<close>, and the
  \<^verbatim>\<open>catch\<close>.
\<close>

definition postThenStream ::
    "request \<Rightarrow> string \<Rightarrow> SSEOpts \<Rightarrow> post_outcome \<Rightarrow> conn_outcome \<Rightarrow> hook \<Rightarrow> hook" where
  "postThenStream req rid opts po co h =
     (let h1 = issue req h in
      case po of
        FetchThrows err \<Rightarrow> catchError err h1
      | Responded ok st \<Rightarrow>
          if \<not> ok then catchError (new_Error (''API error: '' @ string_of_nat st)) h1
          else (case connectSSE rid opts co h1 of
                  (h2, Some err) \<Rightarrow> catchError err h2
                | (h2, None) \<Rightarrow> h2))"

datatype start_outcome =
    StartResponded bool nat "string option" "Script option"
  | StartThrows js_error

definition start :: "StartParams \<Rightarrow> start_outcome \<Rightarrow> hook \<Rightarrow> hook" where
  "start params outcome h =
     (let h1 = setState (\<lambda>_. INITIAL_STATE\<lparr>phase := Running\<rparr>) (abortHeld h);
          multipart = (case referenceImages params of None \<Rightarrow> False | Some files \<Rightarrow> length files > 0);
          h2 = issue (PostGenerate multipart params) h1
      in case outcome of
           StartThrows err \<Rightarrow> catchError err h2
         | StartResponded ok st run_id scr \<Rightarrow>
             if \<not> ok then catchError (new_Error (''API error: '' @ string_of_nat st)) h2
             else setState (\<lambda>s. s\<lparr>phase := Script_review, runId := run_id, script := scr\<rparr>) h2)"

definition confirm :: "Script \<Rightarrow> post_outcome \<Rightarrow> conn_outcome \<Rightarrow> hook \<Rightarrow> hook" where
  "confirm editedScript po co h =
     (case runId (state h) of
        None \<Rightarrow> h
      | Some rid \<Rightarrow>
          if rid = [] then h
          else
            (let h1 = setState (\<lambda>s. s\<lparr>phase := Running, progress := None\<rparr>) h;
                 changed = changedSceneIds (state h) editedScript
             in if changed = Some []
                then setState (\<lambda>s. s\<lparr>phase := Cuts_review, script := Some editedScript,
                                       progress := None\<rparr>) h1
                else
                  postThenStream
                    (PostContinue rid editedScript
                       (case changed of
                          None \<Rightarrow> None
                        | Some ids \<Rightarrow> if length ids > 0 then Some ids else None))
                    rid
                    \<lparr>onImagesReady =
                       Some (\<lambda>imgs s. s\<lparr>phase := Cuts_review, script := Some editedScript,
                                         originalScript := Some editedScript, images := imgs,
                                         progress := None\<rparr>),
                     onVideosReady = None, onVoicesReady = None\<rparr>
                    po co h1))"

definition compose :: "int option list \<Rightarrow> post_outcome \<Rightarrow> conn_outcome \<Rightarrow> hook \<Rightarrow> hook" where
  "compose sceneOrder po co h =
     (case runId (state h) of
        None \<Rightarrow> h
      | Some rid \<Rightarrow>
          if rid = [] then h
          else
            postThenStream (PostCompose rid sceneOrder) rid
              \<lparr>onImagesReady = None,
               onVideosReady =
                 Some (\<lambda>vids s. s\<lparr>phase := Videos_review, videos := vids, progress := None\<rparr>),
               onVoicesReady = None\<rparr>
              po co (setState (\<lambda>s. s\<lparr>phase := Composing, progress := None\<rparr>) h))"

definition generateVoices :: "post_outcome \<Rightarrow> conn_outcome \<Rightarrow> hook \<Rightarrow> hook" where
  "generateVoices po co h =
     (case runId (state h) of
        None \<Rightarrow> h
      | Some rid \<Rightarrow>
          if rid = [] then h
          else
            postThenStream (PostGenerateVoices rid) rid
              \<lparr>onImagesReady = None, onVideosReady = None,
               onVoicesReady =
                 Some (\<lambda>vs s. s\<lparr>phase := Voices_review, voices := vs, progress := None\<rparr>)\<rparr>
              po co (setState (\<lambda>s. s\<lparr>phase := Composing, progress := None\<rparr>) h))"

text \<open>The options that \<^verbatim>\<open>regenerateImage\<close> passes to \<^verbatim>\<open>connectSSE\<close>.\<close>

definition regenerateImage_opts :: SSEOpts where
  "regenerateImage_opts =
     \<lparr>onImagesReady =
        Some (\<lambda>imgs s. s\<lparr>phase := Cuts_review, images := imgs, progress := None\<rparr>),
      onVideosReady = None, onVoicesReady = None\<rparr>"

definition regenerateImage ::
    "(int \<times> string) list \<Rightarrow> post_outcome \<Rightarrow> conn_outcome \<Rightarrow> hook \<Rightarrow> hook" where
  "regenerateImage sceneInstructions po co h =
     (case runId (state h) of
        None \<Rightarrow> h
      | Some rid \<Rightarrow>
          if rid = [] then h
          else
            postThenStream (PostRegenerateImages rid sceneInstructions) rid regenerateImage_opts
              po co (setState (\<lambda>s. s\<lparr>phase := Running, progress := None\<rparr>) h))"

definition regenerateVideo ::
    "(int \<times> string) list \<Rightarrow> post_outcome \<Rightarrow> conn_outcome \<Rightarrow> hook \<Rightarrow> hook" where
  "regenerateVideo sceneInstructions po co h =
     (case runId (state h) of
        None \<Rightarrow> h
      | Some rid \<Rightarrow>
          if rid = [] then h
          else
            postThenStream (PostRegenerateVideos rid sceneInstructions) rid
              \<lparr>onImagesReady = None,
               onVideosReady =
                 Some (\<lambda>vids s. s\<lparr>phase := Videos_review, videos := vids, progress := None\<rparr>),
               onVoicesReady = None\<rparr>
              po co (setState (\<lambda>s. s\<lparr>phase := Composing, progress := None\<rparr>) h))"

definition goToTransitionEdit :: "hook \<Rightarrow> hook" where
  "goToTransitionEdit h = setState (\<lambda>s. s\<lparr>phase := Transition_edit\<rparr>) h"

text \<open>\<^verbatim>\<open>transitions || fallback\<close>: an array is truthy when it is not \<^verbatim>\<open>undefined\<close>.\<close>

definition finalize ::
    "TransitionSetting list option \<Rightarrow> Telop option \<Rightarrow> post_outcome \<Rightarrow> conn_outcome \<Rightarrow> hook \<Rightarrow> hook" where
  "finalize trans_arg telop po co h =
     (case runId (state h) of
        None \<Rightarrow> h
      | Some rid \<Rightarrow>
          if rid = [] then h
          else
            postThenStream
              (PostFinalize rid
                 (case trans_arg of None \<Rightarrow> transitions (state h) | Some t \<Rightarrow> Some t) telop)
              rid no_opts po co
              (setState (\<lambda>s. s\<lparr>phase := Finalizing, progress := None,
                                transitions := (case trans_arg of None \<Rightarrow> transitions s | Some t \<Rightarrow> Some t)\<rparr>) h))"

definition regenerateVoices :: "VoiceData \<Rightarrow> post_outcome \<Rightarrow> conn_outcome \<Rightarrow> hook \<Rightarrow> hook" where
  "regenerateVoices vdata po co h =
     (case runId (state h) of
        None \<Rightarrow> h
      | Some rid \<Rightarrow>
          if rid = [] then h
          else
            postThenStream (PostRegenerateVoices rid vdata) rid
              \<lparr>onImagesReady = None, onVideosReady = None,
               onVoicesReady =
                 Some (\<lambda>vs s. s\<lparr>phase := Voices_review, voices := vs, progress := None\<rparr>)\<rparr>
              po co (setState (\<lambda>s. s\<lparr>phase := Composing, progress := None\<rparr>) h))"

definition reset :: "hook \<Rightarrow> hook" where
  "reset h = setState (\<lambda>_. INITIAL_STATE) (abortHeld h)"

definition goToScriptReview :: "hook \<Rightarrow> hook" where
  "goToScriptReview h =
     setState
       (\<lambda>s. s\<lparr>phase := Script_review, progress := None,
               originalScript :=
                 (if images s \<noteq> None
                  then (case originalScript s of None \<Rightarrow> script s | Some orig \<Rightarrow> Some orig)
                  else None)\<rparr>)
       (abortHeld h)"

definition goToCutsReview :: "hook \<Rightarrow> hook" where
  "goToCutsReview h = setState (\<lambda>s. s\<lparr>phase := Cuts_review, progress := None\<rparr>) (abortHeld h)"

definition goToVoicesReview :: "hook \<Rightarrow> hook" where
  "goToVoicesReview h = setState (\<lambda>s. s\<lparr>phase := Voices_review, progress := None\<rparr>) (abortHeld h)"

definition goToVideosReview :: "hook \<Rightarrow> hook" where
  "goToVideosReview h = setState (\<lambda>s. s\<lparr>phase := Videos_review, progress := None\<rparr>) (abortHeld h)"

subsection \<open>restoreFromHistory\<close>

text \<open>The artifact bundle that the restore request answers (\<^verbatim>\<open>data\<close>).\<close>

record Bundle =
  run_id :: "string option"
  b_script :: "Script option"
  b_images :: "CutImage list option"
  b_videos :: "VideoClip list option"
  b_voices :: "VoiceClip list option"
  b_videoUrl :: "string option"

datatype restore_outcome = RestoreResponded bool nat Bundle | RestoreThrows js_error

text \<open>
  The fallback message of the \<^verbatim>\<open>catch\<close> block of \<^verbatim>\<open>restoreFromHistory\<close> (Japanese for
  "restoring failed"), as the bytes of its UTF-8 encoding.
\<close>

definition RESTORE_FAILED :: string where
  "RESTORE_FAILED =
     [CHR 0xE5, CHR 0xBE, CHR 0xA9, CHR 0xE5, CHR 0x85, CHR 0x83, CHR 0xE3, CHR 0x81, CHR 0xAB,
      CHR 0xE5, CHR 0xA4, CHR 0xB1, CHR 0xE6, CHR 0x95, CHR 0x97, CHR 0xE3, CHR 0x81, CHR 0x97,
      CHR 0xE3, CHR 0x81, CHR 0xBE, CHR 0xE3, CHR 0x81, CHR 0x97, CHR 0xE3, CHR 0x81, CHR 0x9F]"

text \<open>
  The state built from the bundle: \<^verbatim>\<open>newState\<close> starts with phase \<^verbatim>\<open>complete\<close>, and the
  chain of tests overwrites the phase. An array counts when it is there and not empty.
\<close>

definition nonempty :: "'a list option \<Rightarrow> bool" where
  "nonempty v = (case v of None \<Rightarrow> False | Some xs \<Rightarrow> length xs > 0)"

definition restoredState :: "Bundle \<Rightarrow> GenerationState" where
  "restoredState data =
     (let newState =
            INITIAL_STATE\<lparr>runId := run_id data, script := b_script data,
              originalScript := (if b_images data \<noteq> None then b_script data else None),
              images := b_images data, videos := b_videos data, voices := b_voices data,
              videoUrl := b_videoUrl data, phase := Complete\<rparr>
      in if truthy_str (b_videoUrl data) then newState\<lparr>phase := Complete\<rparr>
         else if nonempty (b_voices data) then newState\<lparr>phase := Voices_review\<rparr>
         else if nonempty (b_videos data) then newState\<lparr>phase := Videos_review\<rparr>
         else if nonempty (b_images data) then newState\<lparr>phase := Cuts_review\<rparr>
         else if b_script data \<noteq> None then newState\<lparr>phase := Script_review\<rparr>
         else newState)"

text \<open>The \<^verbatim>\<open>catch\<close> block of \<^verbatim>\<open>restoreFromHistory\<close> has no test for \<^verbatim>\<open>AbortError\<close>.\<close>

definition restoreCatch :: "js_error \<Rightarrow> hook \<Rightarrow> hook" where
  "restoreCatch err h =
     setState (\<lambda>s. s\<lparr>phase := Error, error := Some (or_else (err_message err) RESTORE_FAILED)\<rparr>) h"

definition restoreFromHistory :: "string \<Rightarrow> restore_outcome \<Rightarrow> hook \<Rightarrow> hook" where
  "restoreFromHistory rid outcome h =
     (let h1 = issue (PostRestore rid) (setState (\<lambda>_. INITIAL_STATE\<lparr>phase := Running\<rparr>) h)
      in case outcome of
           RestoreThrows err \<Rightarrow> restoreCatch err h1
         | RestoreResponded ok st data \<Rightarrow>
             if \<not> ok then restoreCatch (new_Error (''API error: '' @ string_of_nat st)) h1
             else setState (\<lambda>_. restoredState data) h1)"

section \<open>Runs of the hook\<close>

text \<open>
  What can happen to a hook: a call of one of its actions, together with the answers of the
  server, or a read of one of its connections that resolves with a chunk, resolves with
  \<^verbatim>\<open>done\<close>, or rejects. A run starts from the initial state of \<^verbatim>\<open>useState\<close> and \<^verbatim>\<open>useRef\<close>.
\<close>

datatype event =
    EStart StartParams start_outcome
  | EConfirm Script post_outcome conn_outcome
  | ECompose "int option list" post_outcome conn_outcome
  | EGenerateVoices post_outcome conn_outcome
  | ERegenerateImage "(int \<times> string) list" post_outcome conn_outcome
  | ERegenerateVideo "(int \<times> string) list" post_outcome conn_outcome
  | EFinalize "TransitionSetting list option" "Telop option" post_outcome conn_outcome
  | ERegenerateVoices VoiceData post_outcome conn_outcome
  | EGoToTransitionEdit
  | EReset
  | EGoToScriptReview
  | EGoToCutsReview
  | EGoToVideosReview
  | EGoToVoicesReview
  | ERestoreFromHistory string restore_outcome
  | EChunk nat "sse_line list"
  | EDone nat
  | EReadFails nat js_error

fun apply_event :: "event \<Rightarrow> hook \<Rightarrow> hook" where
  "apply_event (EStart params outcome) h = start params outcome h"
| "apply_event (EConfirm editedScript po co) h = confirm editedScript po co h"
| "apply_event (ECompose sceneOrder po co) h = compose sceneOrder po co h"
| "apply_event (EGenerateVoices po co) h = generateVoices po co h"
| "apply_event (ERegenerateImage sceneInstructions po co) h = regenerateImage sceneInstructions po co h"
| "apply_event (ERegenerateVideo sceneInstructions po co) h = regenerateVideo sceneInstructions po co h"
| "apply_event (EFinalize trans_arg telop po co) h = finalize trans_arg telop po co h"
| "apply_event (ERegenerateVoices vdata po co) h = regenerateVoices vdata po co h"
| "apply_event EGoToTransitionEdit h = goToTransitionEdit h"
| "apply_event EReset h = reset h"
| "apply_event EGoToScriptReview h = goToScriptReview h"
| "apply_event EGoToCutsReview h = goToCutsReview h"
| "apply_event EGoToVideosReview h = goToVideosReview h"
| "apply_event EGoToVoicesReview h = goToVoicesReview h"
| "apply_event (ERestoreFromHistory rid outcome) h = restoreFromHistory rid outcome h"
| "apply_event (EChunk c lines) h = deliver c lines h"
| "apply_event (EDone c) h = streamDone c h"
| "apply_event (EReadFails c err) h = streamFails c err h"

definition run_from :: "hook \<Rightarrow> event list \<Rightarrow> hook" where
  "run_from h es = foldl (\<lambda>h' e. apply_event e h') h es"

definition run :: "event list \<Rightarrow> hook" where
  "run es = run_from initial_hook es"

text \<open>The seven actions that open a stream, and the actions that call \<^verbatim>\<open>abort()\<close>.\<close>

fun streamed :: "event \<Rightarrow> bool" where
  "streamed (EConfirm editedScript po co) = True"
| "streamed (ECompose sceneOrder po co) = True"
| "streamed (EGenerateVoices po co) = True"
| "streamed (ERegenerateImage sceneInstructions po co) = True"
| "streamed (ERegenerateVideo sceneInstructions po co) = True"
| "streamed (EFinalize trans_arg telop po co) = True"
| "streamed (ERegenerateVoices vdata po co) = True"
| "streamed other = False"

fun cancelling :: "event \<Rightarrow> bool" where
  "cancelling (EStart params outcome) = True"
| "cancelling EReset = True"
| "cancelling EGoToScriptReview = True"
| "cancelling EGoToCutsReview = True"
| "cancelling EGoToVideosReview = True"
| "cancelling EGoToVoicesReview = True"
| "cancelling other = False"

section \<open>The cuts preview (CutsPreview)\<close>

text \<open>
  The page renders the component in phase \<^verbatim>\<open>cuts_review\<close> when the state has a script and
  images. The component owns \<^verbatim>\<open>imageOrder\<close>, \<^verbatim>\<open>selectedScenes\<close> and \<^verbatim>\<open>scenePrompts\<close>; the
  session is the state of the hook it was rendered from. An entry of \<^verbatim>\<open>imageOrder\<close> is a
  number or \<^verbatim>\<open>undefined\<close>.
\<close>

record CutsPreview =
  session :: GenerationState
  imageOrder :: "int option list"
  selectedScenes :: "int list"
  scenePrompts :: "(int \<times> string) list"

definition renderCutsPreview :: "GenerationState \<Rightarrow> CutsPreview option" where
  "renderCutsPreview s =
     (case images s of
        None \<Rightarrow> None
      | Some imgs \<Rightarrow>
          if phase s = Cuts_review \<and> script s \<noteq> None
          then Some \<lparr>session = s, imageOrder = map (\<lambda>img. Some (img_scene_id img)) imgs,
                      selectedScenes = [], scenePrompts = []\<rparr>
          else None)"

text \<open>
  Reading and writing a JavaScript array at a number: a read out of range is
  \<^verbatim>\<open>undefined\<close>; a write past the end extends the array, the holes reading \<^verbatim>\<open>undefined\<close>;
  a write at a negative number sets a property and leaves the elements alone.
\<close>

definition js_get :: "'a option list \<Rightarrow> int \<Rightarrow> 'a option" where
  "js_get xs i = (if 0 \<le> i \<and> i < int (length xs) then xs ! nat i else None)"

definition js_set :: "'a option list \<Rightarrow> int \<Rightarrow> 'a option \<Rightarrow> 'a option list" where
  "js_set xs i v =
     (if i < 0 then xs
      else if i < int (length xs) then xs[nat i := v]
      else xs @ replicate (nat i - length xs) None @ [v])"

datatype Direction = Minus_one | Plus_one

definition offset :: "Direction \<Rightarrow> int" where
  "offset d = (case d of Minus_one \<Rightarrow> - 1 | Plus_one \<Rightarrow> 1)"

text \<open>
  \<^verbatim>\<open>[next[index], next[target]] = [next[target], next[index]]\<close> reads both entries, then
  writes \<^verbatim>\<open>next[index]\<close>, then \<^verbatim>\<open>next[target]\<close>.
\<close>

definition swapImages :: "int \<Rightarrow> Direction \<Rightarrow> CutsPreview \<Rightarrow> CutsPreview" where
  "swapImages index direction cp =
     (let target = index + offset direction in
      if target < 0 \<or> target \<ge> int (length (imageOrder cp)) then cp
      else
        (let prev = imageOrder cp;
             at_target = js_get prev target;
             at_index = js_get prev index
         in cp\<lparr>imageOrder := js_set (js_set prev index at_target) target at_index\<rparr>))"

section \<open>Predicates of the statements\<close>

text \<open>The test of the loop body of the diff: the scene \<open>e\<close> of the edited script is flagged.\<close>

definition changed_scene :: "ScriptScene list \<Rightarrow> ScriptScene \<Rightarrow> bool" where
  "changed_scene originalScenes e =
     (case find (\<lambda>s. scene_id s = scene_id e) originalScenes of
        None \<Rightarrow> True
      | Some original \<Rightarrow> image_prompt original \<noteq> image_prompt e)"

text \<open>
  A terminal record, in the words of the stream protocol: a \<^verbatim>\<open>complete\<close> record with a
  video url, a stage-ready record for which the caller supplied the callback, or an
  \<^verbatim>\<open>error\<close> record.
\<close>

definition terminal :: "SSEOpts \<Rightarrow> ProgressEvent \<Rightarrow> bool" where
  "terminal opts r =
     ((status r = Some ''complete'' \<and> truthy_str (ev_videoUrl r))
      \<or> (status r = Some ''images_ready'' \<and> onImagesReady opts \<noteq> None)
      \<or> (status r = Some ''videos_ready'' \<and> onVideosReady opts \<noteq> None)
      \<or> (status r = Some ''voices_ready'' \<and> onVoicesReady opts \<noteq> None)
      \<or> status r = Some ''error'')"

fun nonterminal_line :: "SSEOpts \<Rightarrow> sse_line \<Rightarrow> bool" where
  "nonterminal_line opts (Json r) = (\<not> terminal opts r)"
| "nonterminal_line opts other = True"

text \<open>The progress field after a run of lines none of which is terminal.\<close>

fun progress_after :: "sse_line list \<Rightarrow> ProgressEvent option \<Rightarrow> ProgressEvent option" where
  "progress_after [] p = p"
| "progress_after (Json r # ls) p = progress_after ls (Some r)"
| "progress_after (other # ls) p = progress_after ls p"

text \<open>
  The invariant of the runs. The callbacks that the actions pass to \<^verbatim>\<open>connectSSE\<close> end in
  a review phase; the state has an error message in phase \<^verbatim>\<open>error\<close>, and in phase
  \<^verbatim>\<open>complete\<close> it has a video url or no artifact at all.
\<close>

definition callbacks_ok :: "SSEOpts \<Rightarrow> bool" where
  "callbacks_ok opts =
     ((\<forall>cb x s. onImagesReady opts = Some cb \<longrightarrow> phase (cb x s) = Cuts_review)
      \<and> (\<forall>cb x s. onVideosReady opts = Some cb \<longrightarrow> phase (cb x s) = Videos_review)
      \<and> (\<forall>cb x s. onVoicesReady opts = Some cb \<longrightarrow> phase (cb x s) = Voices_review))"

definition phase_fields_ok :: "GenerationState \<Rightarrow> bool" where
  "phase_fields_ok s =
     ((phase s = Error \<longrightarrow> truthy_str (error s))
      \<and> (phase s = Complete \<longrightarrow>
            truthy_str (videoUrl s)
            \<or> (script s = None \<and> \<not> nonempty (images s) \<and> \<not> nonempty (videos s)
                \<and> \<not> nonempty (voices s))))"

definition hook_inv :: "hook \<Rightarrow> bool" where
  "hook_inv h =
     (phase_fields_ok (state h)
      \<and> (\<forall>c\<in>set (conns h). \<forall>opts. consumer c = Some opts \<longrightarrow> callbacks_ok opts))"

text \<open>No connection is dropped from the store, and an aborted signal stays aborted.\<close>

definition keeps_aborted :: "hook \<Rightarrow> hook \<Rightarrow> bool" where
  "keeps_aborted h h' =
     (length (conns h) \<le> length (conns h')
      \<and> (\<forall>c<length (conns h). aborted (conns h ! c) \<longrightarrow> aborted (conns h' ! c)))"






section \<open>Example sessions\<close>

definition ex_scene1 :: ScriptScene where
  "ex_scene1 =
     \<lparr>scene_id = 1, scene_text = ''intro'', image_prompt = ''office at night'', duration_sec = 3\<rparr>"

definition ex_scene2 :: ScriptScene where
  "ex_scene2 =
     \<lparr>scene_id = 2, scene_text = ''turn'', image_prompt = ''rainy street'', duration_sec = 4\<rparr>"

definition ex_scene3 :: ScriptScene where
  "ex_scene3 =
     \<lparr>scene_id = 3, scene_text = ''end'', image_prompt = ''sunrise'', duration_sec = 3\<rparr>"

definition ex_baseline :: Script where
  "ex_baseline = \<lparr>title = ''demo'', scenes = [ex_scene1, ex_scene2]\<rparr>"

text \<open>Scene 1 with a new text and duration, scene 2 with a new prompt, scene 3 added.\<close>

definition ex_edited :: Script where
  "ex_edited =
     \<lparr>title = ''demo'',
      scenes = [ex_scene1\<lparr>scene_text := ''new intro'', duration_sec := 5\<rparr>,
                ex_scene2\<lparr>image_prompt := ''sunny street''\<rparr>, ex_scene3]\<rparr>"

text \<open>Only the text and the duration of scene 1 differ from the baseline.\<close>

definition ex_text_edit :: Script where
  "ex_text_edit =
     \<lparr>title = ''demo'',
      scenes = [ex_scene1\<lparr>scene_text := ''new intro'', duration_sec := 5\<rparr>, ex_scene2]\<rparr>"

definition ex_images :: "CutImage list" where
  "ex_images =
     [\<lparr>img_scene_id = 1, imageUrl = ''/img/1.png''\<rparr>, \<lparr>img_scene_id = 2, imageUrl = ''/img/2.png''\<rparr>]"

definition ex_bundle :: Bundle where
  "ex_bundle =
     \<lparr>run_id = Some ''run1'', b_script = Some ex_baseline, b_images = Some ex_images,
      b_videos = None, b_voices = None, b_videoUrl = None\<rparr>"

definition ex_empty_bundle :: Bundle where
  "ex_empty_bundle =
     \<lparr>run_id = Some ''run1'', b_script = None, b_images = None, b_videos = None,
      b_voices = None, b_videoUrl = None\<rparr>"

text \<open>A session restored with a script and images, and the same after "back to the script".\<close>

definition ex_cuts_review :: hook where
  "ex_cuts_review = run [ERestoreFromHistory ''run1'' (RestoreResponded True 200 ex_bundle)]"

definition ex_script_review :: hook where
  "ex_script_review = run_from ex_cuts_review [EGoToScriptReview]"



text \<open>Stream records.\<close>

definition ex_progress :: "int \<Rightarrow> ProgressEvent" where
  "ex_progress n =
     \<lparr>step = Some 2, stepName = Some ''images'', totalSteps = Some 5, status = Some ''running'',
      detail = Some ''generating'', scene = Some n, totalScenes = Some 2, ev_videoUrl = None,
      ev_images = None, ev_videos = None, ev_voices = None\<rparr>"

definition ex_images_ready :: "CutImage list \<Rightarrow> ProgressEvent" where
  "ex_images_ready imgs = (ex_progress 2)\<lparr>status := Some ''images_ready'', ev_images := Some imgs\<rparr>"

definition ex_error_record :: ProgressEvent where
  "ex_error_record = (ex_progress 2)\<lparr>status := Some ''error'', detail := Some ''quota exceeded''\<rparr>"

definition ex_complete_record :: ProgressEvent where
  "ex_complete_record =
     (ex_progress 2)\<lparr>status := Some ''complete'', ev_videoUrl := Some ''/out/final.mp4''\<rparr>"

definition ex_complete_no_url :: ProgressEvent where
  "ex_complete_no_url = (ex_progress 2)\<lparr>status := Some ''complete''\<rparr>"

text \<open>The cuts preview of the restored session, and an image regeneration under way.\<close>

definition ex_cuts_preview :: CutsPreview where
  "ex_cuts_preview =
     \<lparr>session = state ex_cuts_review, imageOrder = [Some 1, Some 2], selectedScenes = [],
      scenePrompts = []\<rparr>"

definition ex_regenerating :: hook where
  "ex_regenerating =
     run_from ex_cuts_review
       [ERegenerateImage [(1, ''brighter'')] (Responded True 200) (ConnResponded True True)]"

text \<open>
  A second regeneration issued while the stream of the first is open, and a navigation
  issued instead.
\<close>

definition ex_two_streams :: hook where
  "ex_two_streams =
     run_from ex_regenerating
       [ERegenerateImage [(2, ''darker'')] (Responded True 200) (ConnResponded True True)]"

definition ex_cancelled :: hook where
  "ex_cancelled = run_from ex_regenerating [EGoToCutsReview]"

text \<open>
  Runs: a session restored with its final video; the same, then back to the cuts and an
  image regeneration that the server refuses; a session restored from an empty bundle.
\<close>

definition ex_final_bundle :: Bundle where
  "ex_final_bundle = ex_bundle\<lparr>b_videoUrl := Some ''/out/final.mp4''\<rparr>"

definition ex_restore_final :: "event list" where
  "ex_restore_final = [ERestoreFromHistory ''run1'' (RestoreResponded True 200 ex_final_bundle)]"

definition ex_error_after_complete :: "event list" where
  "ex_error_after_complete =
     ex_restore_final
     @ [EGoToCutsReview,
        ERegenerateImage [(1, ''brighter'')] (Responded False 500) (ConnResponded True True)]"

definition ex_restore_empty :: "event list" where
  "ex_restore_empty = [ERestoreFromHistory ''run1'' (RestoreResponded True 200 ex_empty_bundle)]"

section \<open>Evaluation of the examples\<close>

lemmas model_defs =
  run_def run_from_def initial_hook_def INITIAL_STATE_def setState_def issue_def abortHeld_def
  catchError_def restoreCatch_def restoreFromHistory_def restoredState_def truthy_str_def
  nonempty_def or_else_def new_Error_def connectSSE_def postThenStream_def handleRecord_def
  deliver_def dropConsumer_def streamDone_def streamFails_def no_opts_def
  start_def confirm_def compose_def generateVoices_def regenerateImage_def regenerateVideo_def
  finalize_def regenerateVoices_def reset_def goToTransitionEdit_def goToScriptReview_def
  goToCutsReview_def goToVideosReview_def goToVoicesReview_def changedSceneIds_def live_def
  regenerateImage_opts_def

lemma ex_cuts_review_eq:
  "ex_cuts_review =
     \<lparr>state = \<lparr>phase = Cuts_review, runId = Some ''run1'', script = Some ex_baseline,
                originalScript = Some ex_baseline, images = Some ex_images, videos = None,
                voices = None, transitions = None, progress = None, videoUrl = None,
                error = None\<rparr>,
      abortRef = None, conns = [], requests = [PostRestore ''run1'']\<rparr>"
  by (simp add: ex_cuts_review_def ex_bundle_def ex_images_def model_defs)

lemma ex_script_review_eq:
  "ex_script_review =
     \<lparr>state = \<lparr>phase = Script_review, runId = Some ''run1'', script = Some ex_baseline,
                originalScript = Some ex_baseline, images = Some ex_images, videos = None,
                voices = None, transitions = None, progress = None, videoUrl = None,
                error = None\<rparr>,
      abortRef = None, conns = [], requests = [PostRestore ''run1'']\<rparr>"
  by (simp add: ex_script_review_def ex_cuts_review_eq run_from_def goToScriptReview_def
      setState_def abortHeld_def)


lemma ex_cuts_preview_rendered: "renderCutsPreview (state ex_cuts_review) = Some ex_cuts_preview"
  by (simp add: renderCutsPreview_def ex_cuts_preview_def ex_cuts_review_eq ex_images_def)

lemma ex_changed_edited: "changedSceneIds (state ex_script_review) ex_edited = Some [2, 3]"
  by (simp add: ex_script_review_eq changedSceneIds_def ex_edited_def ex_baseline_def
      ex_scene1_def ex_scene2_def ex_scene3_def)

lemma ex_changed_text_edit: "changedSceneIds (state ex_script_review) ex_text_edit = Some []"
  by (simp add: ex_script_review_eq changedSceneIds_def ex_text_edit_def ex_baseline_def
      ex_scene1_def ex_scene2_def)

lemma ex_regenerating_eq:
  "ex_regenerating =
     \<lparr>state = \<lparr>phase = Running, runId = Some ''run1'', script = Some ex_baseline,
                originalScript = Some ex_baseline, images = Some ex_images, videos = None,
                voices = None, transitions = None, progress = None, videoUrl = None,
                error = None\<rparr>,
      abortRef = Some 0,
      conns = [\<lparr>aborted = False, consumer = Some regenerateImage_opts\<rparr>],
      requests = [PostRestore ''run1'', PostRegenerateImages ''run1'' [(1, ''brighter'')],
                  GetProgress ''run1'']\<rparr>"
  by (simp add: ex_regenerating_def ex_cuts_review_eq run_from_def regenerateImage_def
      postThenStream_def connectSSE_def setState_def issue_def Let_def)

lemma ex_two_streams_eq:
  "ex_two_streams =
     \<lparr>state = \<lparr>phase = Running, runId = Some ''run1'', script = Some ex_baseline,
                originalScript = Some ex_baseline, images = Some ex_images, videos = None,
                voices = None, transitions = None, progress = None, videoUrl = None,
                error = None\<rparr>,
      abortRef = Some 1,
      conns = [\<lparr>aborted = False, consumer = Some regenerateImage_opts\<rparr>,
               \<lparr>aborted = False, consumer = Some regenerateImage_opts\<rparr>],
      requests = [PostRestore ''run1'', PostRegenerateImages ''run1'' [(1, ''brighter'')],
                  GetProgress ''run1'', PostRegenerateImages ''run1'' [(2, ''darker'')],
                  GetProgress ''run1'']\<rparr>"
  by (simp add: ex_two_streams_def ex_regenerating_eq run_from_def regenerateImage_def
      postThenStream_def connectSSE_def setState_def issue_def Let_def)

lemma ex_cancelled_eq:
  "ex_cancelled =
     \<lparr>state = \<lparr>phase = Cuts_review, runId = Some ''run1'', script = Some ex_baseline,
                originalScript = Some ex_baseline, images = Some ex_images, videos = None,
                voices = None, transitions = None, progress = None, videoUrl = None,
                error = None\<rparr>,
      abortRef = Some 0,
      conns = [\<lparr>aborted = True, consumer = Some regenerateImage_opts\<rparr>],
      requests = [PostRestore ''run1'', PostRegenerateImages ''run1'' [(1, ''brighter'')],
                  GetProgress ''run1'']\<rparr>"
  by (simp add: ex_cancelled_def ex_regenerating_eq run_from_def goToCutsReview_def
      abortHeld_def setState_def)

lemma string_of_500: "string_of_nat 500 = ''500''"
  by code_simp

lemma ex_restore_final_state:
  "state (run ex_restore_final) =
     \<lparr>phase = Complete, runId = Some ''run1'', script = Some ex_baseline,
      originalScript = Some ex_baseline, images = Some ex_images, videos = None,
      voices = None, transitions = None, progress = None, videoUrl = Some ''/out/final.mp4'',
      error = None\<rparr>"
  by (simp add: ex_restore_final_def ex_final_bundle_def ex_bundle_def ex_images_def model_defs)

lemma ex_error_after_complete_state:
  "state (run ex_error_after_complete) =
     \<lparr>phase = Error, runId = Some ''run1'', script = Some ex_baseline,
      originalScript = Some ex_baseline, images = Some ex_images, videos = None,
      voices = None, transitions = None, progress = None, videoUrl = Some ''/out/final.mp4'',
      error = Some ''API error: 500''\<rparr>"
  by (simp add: ex_error_after_complete_def ex_restore_final_def ex_final_bundle_def ex_bundle_def
      ex_images_def model_defs string_of_500)

lemma ex_restore_empty_state:
  "state (run ex_restore_empty) = INITIAL_STATE\<lparr>phase := Complete, runId := Some ''run1''\<rparr>"
  by (simp add: ex_restore_empty_def ex_empty_bundle_def model_defs)

section \<open>The diff engine\<close>

lemma changedLoop_filter:
  "changedLoop os es acc = acc @ map scene_id (filter (changed_scene os) es)"
  by (induction es arbitrary: acc) (auto simp: changed_scene_def split: option.splits)

text \<open>
  The test of the loop, without \<open>find\<close>: no baseline scene has the id, or the first
  baseline scene with the id has another prompt.
\<close>

lemma changed_scene_iff:
  "changed_scene os e \<longleftrightarrow>
     (\<forall>b\<in>set os. scene_id b \<noteq> scene_id e) \<or>
     (\<exists>i<length os. scene_id (os ! i) = scene_id e \<and> (\<forall>j<i. scene_id (os ! j) \<noteq> scene_id e) \<and>
        image_prompt (os ! i) \<noteq> image_prompt e)"
proof (cases "find (\<lambda>s. scene_id s = scene_id e) os")
  case None
  then have "\<forall>b\<in>set os. scene_id b \<noteq> scene_id e"
    by (auto simp: find_None_iff)
  then show ?thesis
    using None by (simp add: changed_scene_def)
next
  case (Some a)
  then obtain i where i: "i < length os" "scene_id (os ! i) = scene_id e" "a = os ! i"
    "\<forall>j<i. scene_id (os ! j) \<noteq> scene_id e"
    by (auto simp: find_Some_iff)
  have uniq: "k = i" if k: "k < length os" "scene_id (os ! k) = scene_id e"
    "\<forall>j<k. scene_id (os ! j) \<noteq> scene_id e" for k
  proof -
    have "\<not> k < i" using k(2) i(4) by blast
    moreover have "\<not> i < k" using k(3) i(2) by blast
    ultimately show ?thesis by simp
  qed
  have there: "\<not> (\<forall>b\<in>set os. scene_id b \<noteq> scene_id e)"
    using i(1,2) nth_mem by blast
  have "changed_scene os e \<longleftrightarrow> image_prompt (os ! i) \<noteq> image_prompt e"
    using Some i(3) by (simp add: changed_scene_def)
  also have "\<dots> \<longleftrightarrow> (\<exists>k<length os. scene_id (os ! k) = scene_id e \<and>
        (\<forall>j<k. scene_id (os ! j) \<noteq> scene_id e) \<and> image_prompt (os ! k) \<noteq> image_prompt e)"
    using i(1,2,4) uniq by blast
  finally have "changed_scene os e \<longleftrightarrow> (\<exists>k<length os. scene_id (os ! k) = scene_id e \<and>
        (\<forall>j<k. scene_id (os ! j) \<noteq> scene_id e) \<and> image_prompt (os ! k) \<noteq> image_prompt e)" .
  then show ?thesis
    using there by blast
qed

lemma changed_scene_text_duration:
  "changed_scene os (e\<lparr>scene_text := t, duration_sec := d\<rparr>) = changed_scene os e"
  by (simp add: changed_scene_def split: option.splits)

lemma changed_ids_text_duration:
  "map scene_id
     (filter (changed_scene os) (map (\<lambda>e. e\<lparr>scene_text := t e, duration_sec := d e\<rparr>) es))
     = map scene_id (filter (changed_scene os) es)"
  by (induction es) (simp_all add: changed_scene_text_duration)

text \<open>
  C1. When a baseline script and images exist, the ids that \<^verbatim>\<open>confirm\<close> computes are exactly
  the \<^verbatim>\<open>scene_id\<close>s of the edited scenes that have no baseline scene with the same id, or
  whose \<^verbatim>\<open>image_prompt\<close> differs from the one of the baseline scene with that id (the first
  one, should several share it). Rewriting the text and the duration of any scenes of the
  edited script leaves the computed ids as they are.
\<close>

theorem confirm_changed_ids_exact:
  assumes "originalScript s = Some orig" and "images s = Some imgs"
  shows "\<exists>ids. changedSceneIds s edited = Some ids \<and>
           set ids =
             {scene_id e |e. e \<in> set (scenes edited) \<and>
                ((\<forall>b\<in>set (scenes orig). scene_id b \<noteq> scene_id e) \<or>
                 (\<exists>i<length (scenes orig).
                     scene_id (scenes orig ! i) = scene_id e \<and>
                     (\<forall>j<i. scene_id (scenes orig ! j) \<noteq> scene_id e) \<and>
                     image_prompt (scenes orig ! i) \<noteq> image_prompt e))} \<and>
           changedSceneIds s
             (edited\<lparr>scenes :=
                map (\<lambda>e. e\<lparr>scene_text := t e, duration_sec := d e\<rparr>) (scenes edited)\<rparr>)
             = Some ids"
proof -
  let ?ids = "map scene_id (filter (changed_scene (scenes orig)) (scenes edited))"
  have 1: "changedSceneIds s edited = Some ?ids"
    using assms by (simp add: changedSceneIds_def changedLoop_filter)
  have "set ?ids = {scene_id e |e. e \<in> set (scenes edited) \<and> changed_scene (scenes orig) e}"
    by auto
  then have 2: "set ?ids =
             {scene_id e |e. e \<in> set (scenes edited) \<and>
                ((\<forall>b\<in>set (scenes orig). scene_id b \<noteq> scene_id e) \<or>
                 (\<exists>i<length (scenes orig).
                     scene_id (scenes orig ! i) = scene_id e \<and>
                     (\<forall>j<i. scene_id (scenes orig ! j) \<noteq> scene_id e) \<and>
                     image_prompt (scenes orig ! i) \<noteq> image_prompt e))}"
    by (simp only: changed_scene_iff)
  have 4: "changedSceneIds s
             (edited\<lparr>scenes :=
                map (\<lambda>e. e\<lparr>scene_text := t e, duration_sec := d e\<rparr>) (scenes edited)\<rparr>)
             = Some ?ids"
    using assms by (simp add: changedSceneIds_def changedLoop_filter changed_ids_text_duration)
  show ?thesis
    by (intro exI[of _ ?ids] conjI 1 2 4)
qed

text \<open>
  The example: of the three edited scenes, scene 1 (text and duration changed) is not
  flagged, scene 2 (prompt changed) and scene 3 (added) are.
\<close>

theorem confirm_changed_ids_exact_witness:
  "originalScript (state ex_script_review) = Some ex_baseline
   \<and> images (state ex_script_review) = Some ex_images
   \<and> (\<exists>ids. changedSceneIds (state ex_script_review) ex_edited = Some ids \<and> set ids = {2, 3})"
proof -
  have a: "originalScript (state ex_script_review) = Some ex_baseline"
    by (simp add: ex_script_review_eq)
  have b: "images (state ex_script_review) = Some ex_images"
    by (simp add: ex_script_review_eq)
  from confirm_changed_ids_exact [OF a b, of ex_edited]
  obtain ids where "changedSceneIds (state ex_script_review) ex_edited = Some ids"
    by blast
  then have "changedSceneIds (state ex_script_review) ex_edited = Some ids \<and> set ids = {2, 3}"
    using ex_changed_edited by auto
  then show ?thesis
    using a b by blast
qed

text \<open>
  C2. With an active run id, when the computed list of changed ids is empty (so a baseline
  script and images exist and no scene is flagged), \<^verbatim>\<open>confirm\<close> issues no request, opens no
  connection, leaves the abort reference alone, and ends in phase \<^verbatim>\<open>cuts_review\<close> with the
  edited script as the script; the answers of the server play no part.
\<close>

theorem confirm_unchanged_skips_remote_work:
  assumes "truthy_str (runId (state h))"
    and "changedSceneIds (state h) editedScript = Some []"
  shows "confirm editedScript po co h =
           h\<lparr>state := (state h)\<lparr>phase := Cuts_review, script := Some editedScript,
                                  progress := None\<rparr>\<rparr>
         \<and> requests (confirm editedScript po co h) = requests h
         \<and> conns (confirm editedScript po co h) = conns h
         \<and> abortRef (confirm editedScript po co h) = abortRef h"
  using assms
  by (auto simp: confirm_def truthy_str_def setState_def Let_def split: option.splits)

theorem confirm_unchanged_skips_remote_work_witness:
  "truthy_str (runId (state ex_script_review))
   \<and> changedSceneIds (state ex_script_review) ex_text_edit = Some []
   \<and> phase (state (confirm ex_text_edit (Responded True 200) (ConnResponded True True)
               ex_script_review)) = Cuts_review
   \<and> script (state (confirm ex_text_edit (Responded True 200) (ConnResponded True True)
               ex_script_review)) = Some ex_text_edit
   \<and> requests (confirm ex_text_edit (Responded True 200) (ConnResponded True True)
               ex_script_review) = [PostRestore ''run1'']
   \<and> conns (confirm ex_text_edit (Responded True 200) (ConnResponded True True)
               ex_script_review) = []"
proof -
  have a: "truthy_str (runId (state ex_script_review))"
    by (simp add: ex_script_review_eq truthy_str_def)
  note b = ex_changed_text_edit
  note c = confirm_unchanged_skips_remote_work
             [OF a b, of "Responded True 200" "ConnResponded True True"]
  show ?thesis
    using a b c by (simp add: ex_script_review_eq)
qed

section \<open>Session restore\<close>

text \<open>
  C4 (as amended). After a successful restore the state holds the run id and the artifacts
  of the bundle, and no transitions, progress or error. The phase is \<^verbatim>\<open>complete\<close> when the
  final video url is a non-empty string; else \<^verbatim>\<open>voices_review\<close> when the voices are a
  non-empty list; else \<^verbatim>\<open>videos_review\<close> when the videos are a non-empty list; else
  \<^verbatim>\<open>cuts_review\<close> when the images are a non-empty list; else \<^verbatim>\<open>script_review\<close> when there
  is a script; else it stays \<^verbatim>\<open>complete\<close>, the default of the code. \<^verbatim>\<open>originalScript\<close> is
  the restored script when the images are a non-empty list, and null when the bundle has no
  image list.
\<close>

theorem restore_phase_walk:
  assumes "s' = state (restoreFromHistory rid (RestoreResponded True st data) h)"
  shows "phase s' =
           (if truthy_str (b_videoUrl data) then Complete
            else if nonempty (b_voices data) then Voices_review
            else if nonempty (b_videos data) then Videos_review
            else if nonempty (b_images data) then Cuts_review
            else if b_script data \<noteq> None then Script_review
            else Complete)
         \<and> (nonempty (b_images data) \<longrightarrow> originalScript s' = b_script data)
         \<and> (b_images data = None \<longrightarrow> originalScript s' = None)
         \<and> runId s' = run_id data \<and> script s' = b_script data
         \<and> images s' = b_images data \<and> videos s' = b_videos data \<and> voices s' = b_voices data
         \<and> videoUrl s' = b_videoUrl data
         \<and> transitions s' = None \<and> progress s' = None \<and> error s' = None"
  using assms
  by (auto simp: restoreFromHistory_def restoredState_def setState_def issue_def Let_def
      INITIAL_STATE_def nonempty_def)

text \<open>
  C4 as stated fails: a bundle with no final video, voices, videos, images or script is
  restored to phase \<^verbatim>\<open>complete\<close>, not \<^verbatim>\<open>idle\<close>.
\<close>

theorem restore_empty_bundle_is_complete:
  "phase (state (restoreFromHistory ''run1'' (RestoreResponded True 200 ex_empty_bundle)
                   initial_hook)) = Complete
   \<and> phase (state (restoreFromHistory ''run1'' (RestoreResponded True 200 ex_empty_bundle)
                     initial_hook)) \<noteq> Idle"
  by (simp add: ex_empty_bundle_def model_defs)

text \<open>
  The examples: a bundle with a script and two images, and the same bundle without its
  image list.
\<close>

theorem restore_phase_walk_witness:
  "nonempty (b_images ex_bundle)
   \<and> phase (state (restoreFromHistory ''run1'' (RestoreResponded True 200 ex_bundle) initial_hook))
       = Cuts_review
   \<and> originalScript (state (restoreFromHistory ''run1'' (RestoreResponded True 200 ex_bundle)
        initial_hook)) = Some ex_baseline
   \<and> b_images (ex_bundle\<lparr>b_images := None\<rparr>) = None
   \<and> phase (state (restoreFromHistory ''run1''
        (RestoreResponded True 200 (ex_bundle\<lparr>b_images := None\<rparr>)) initial_hook)) = Script_review
   \<and> originalScript (state (restoreFromHistory ''run1''
        (RestoreResponded True 200 (ex_bundle\<lparr>b_images := None\<rparr>)) initial_hook)) = None"
proof -
  have a: "nonempty (b_images ex_bundle)"
    by (simp add: ex_bundle_def ex_images_def nonempty_def)
  have b: "b_images (ex_bundle\<lparr>b_images := None\<rparr>) = None"
    by simp
  note 1 = restore_phase_walk [OF refl, of "''run1''" 200 ex_bundle initial_hook]
  note 2 = restore_phase_walk [OF refl, of "''run1''" 200 "ex_bundle\<lparr>b_images := None\<rparr>" initial_hook]
  have c: "originalScript (state (restoreFromHistory ''run1'' (RestoreResponded True 200 ex_bundle)
        initial_hook)) = Some ex_baseline"
    using 1 a by (simp add: ex_bundle_def)
  have d: "phase (state (restoreFromHistory ''run1'' (RestoreResponded True 200 ex_bundle) initial_hook))
       = Cuts_review"
    using 1 a by (simp add: ex_bundle_def truthy_str_def nonempty_def)
  have e: "originalScript (state (restoreFromHistory ''run1''
        (RestoreResponded True 200 (ex_bundle\<lparr>b_images := None\<rparr>)) initial_hook)) = None"
    using 2 b by blast
  have f: "phase (state (restoreFromHistory ''run1''
        (RestoreResponded True 200 (ex_bundle\<lparr>b_images := None\<rparr>)) initial_hook)) = Script_review"
    using 2 by (simp add: ex_bundle_def truthy_str_def nonempty_def)
  show ?thesis
    using a b c d e f by blast
qed


section \<open>The progress stream\<close>

lemma handleRecord_terminal: "snd (handleRecord opts r s) = terminal opts r"
  by (simp add: handleRecord_def terminal_def)

lemma handleRecord_progress:
  "\<not> terminal opts r \<Longrightarrow> handleRecord opts r s = (s\<lparr>progress := Some r\<rparr>, False)"
  by (simp add: handleRecord_def terminal_def)

lemma forLines_nonterminal:
  "list_all (nonterminal_line opts) ls \<Longrightarrow>
     forLines opts ls s = (s\<lparr>progress := progress_after ls (progress s)\<rparr>, False)"
proof (induction ls arbitrary: s)
  case Nil
  then show ?case by simp
next
  case (Cons l ls)
  then have rest: "list_all (nonterminal_line opts) ls"
    by simp
  show ?case
  proof (cases l)
    case (Json r)
    with Cons.prems have nt: "\<not> terminal opts r"
      by simp
    show ?thesis
      using Json handleRecord_progress [OF nt] Cons.IH [OF rest] by simp
  next
    case NotData
    then show ?thesis using Cons.IH [OF rest] by simp
  next
    case EmptyData
    then show ?thesis using Cons.IH [OF rest] by simp
  next
    case Malformed
    then show ?thesis using Cons.IH [OF rest] by simp
  qed
qed

lemma progress_after_append:
  "progress_after (xs @ ys) p = progress_after ys (progress_after xs p)"
  by (induction xs p rule: progress_after.induct) simp_all

lemma forLines_first_terminal:
  assumes "terminal opts r" and "list_all (nonterminal_line opts) before"
  shows "forLines opts (before @ Json r # after) s =
           (fst (handleRecord opts r (s\<lparr>progress := progress_after before (progress s)\<rparr>)), True)"
  using assms
proof (induction before arbitrary: s)
  case Nil
  have "snd (handleRecord opts r s) = True"
    using Nil(1) by (simp add: handleRecord_terminal)
  then show ?case
    by (cases "handleRecord opts r s") simp
next
  case (Cons l ls)
  then have rest: "list_all (nonterminal_line opts) ls"
    by simp
  note IH = Cons.IH [OF Cons.prems(1) rest]
  show ?case
  proof (cases l)
    case (Json d)
    with Cons.prems have nt: "\<not> terminal opts d"
      by simp
    show ?thesis
      using Json handleRecord_progress [OF nt] IH by simp
  next
    case NotData
    then show ?thesis using IH by simp
  next
    case EmptyData
    then show ?thesis using IH by simp
  next
    case Malformed
    then show ?thesis using IH by simp
  qed
qed

text \<open>
  The events and the loop agree: reading the chunks of a live connection one event at a
  time, with nothing in between, leaves the state that the \<^verbatim>\<open>while\<close> loop computes.
\<close>

lemma deliver_returned:
  "c < length (conns h) \<Longrightarrow> consumer (conns h ! c) = None \<Longrightarrow>
     run_from h (map (EChunk c) chunks) = h"
  unfolding run_from_def
  by (induction chunks) (simp_all add: deliver_def)

lemma deliver_chunks_whileRead:
  assumes "c < length (conns h)" and "consumer (conns h ! c) = Some opts"
    and "\<not> aborted (conns h ! c)"
  shows "state (run_from h (map (EChunk c) chunks)) = fst (whileRead opts chunks (state h))"
  using assms
proof (induction chunks arbitrary: h)
  case Nil
  show ?case by (simp add: run_from_def)
next
  case (Cons ls chunks)
  obtain s' stop where fl: "forLines opts ls (state h) = (s', stop)"
    by (cases "forLines opts ls (state h)")
  have unfold: "run_from h (EChunk c ls # map (EChunk c) chunks)
                  = run_from (deliver c ls h) (map (EChunk c) chunks)"
    by (simp add: run_from_def)
  show ?case
  proof (cases stop)
    case True
    let ?h' = "dropConsumer c (h\<lparr>state := s'\<rparr>)"
    have d: "deliver c ls h = ?h'"
      using Cons.prems fl True by (simp add: deliver_def)
    have "c < length (conns ?h')" and "consumer (conns ?h' ! c) = None"
      using Cons.prems(1) by (simp_all add: dropConsumer_def)
    then have "run_from ?h' (map (EChunk c) chunks) = ?h'"
      by (rule deliver_returned)
    then show ?thesis
      using fl True by (simp add: unfold d dropConsumer_def)
  next
    case False
    let ?h' = "h\<lparr>state := s'\<rparr>"
    have d: "deliver c ls h = ?h'"
      using Cons.prems fl False by (simp add: deliver_def)
    have "state (run_from ?h' (map (EChunk c) chunks)) = fst (whileRead opts chunks (state ?h'))"
      using Cons.prems by (intro Cons.IH) simp_all
    then show ?thesis
      using fl False by (simp add: unfold d)
  qed
qed

text \<open>
  C7. Let a stream hold a terminal record \<open>r\<close>, and let no record before it (in the chunks
  \<open>pre\<close> and in the lines \<open>before\<close> of its own chunk) be terminal. Then the loop returns
  at \<open>r\<close>: the result is the state that handling \<open>r\<close> yields, on top of the progress
  updates of the earlier records, and it is the same whatever lines (\<open>after\<close>) and chunks
  (\<open>post\<close>) follow \<open>r\<close>.
\<close>

theorem first_terminal_record_ends_the_loop:
  assumes "terminal opts r"
    and "list_all (nonterminal_line opts) (concat pre @ before)"
  shows "whileRead opts (pre @ (before @ Json r # after) # post) s =
           (fst (handleRecord opts r
                   (s\<lparr>progress := progress_after (concat pre @ before) (progress s)\<rparr>)), True)"
  using assms(2)
proof (induction pre arbitrary: s)
  case Nil
  then show ?case
    using forLines_first_terminal [OF assms(1), of before after s] by simp
next
  case (Cons chunk pre)
  then have c: "list_all (nonterminal_line opts) chunk"
    and rest: "list_all (nonterminal_line opts) (concat pre @ before)"
    by simp_all
  show ?case
    using forLines_nonterminal [OF c, of s] Cons.IH [OF rest]
    by (simp add: progress_after_append)
qed

text \<open>
  The example: after two progress records the images-ready record is honoured; the error
  record behind it in the same chunk and the complete record of the next chunk are not.
\<close>

theorem first_terminal_record_ends_the_loop_witness:
  "terminal regenerateImage_opts (ex_images_ready ex_images)
   \<and> list_all (nonterminal_line regenerateImage_opts)
       (concat [[NotData, Json (ex_progress 1)]] @ [Json (ex_progress 2)])
   \<and> whileRead regenerateImage_opts
       ([[NotData, Json (ex_progress 1)]]
        @ ([Json (ex_progress 2)] @ Json (ex_images_ready ex_images) # [Json ex_error_record])
        # [[Json ex_complete_record]])
       (INITIAL_STATE\<lparr>phase := Running\<rparr>)
     = (INITIAL_STATE\<lparr>phase := Cuts_review, images := Some ex_images\<rparr>, True)"
proof -
  have a: "terminal regenerateImage_opts (ex_images_ready ex_images)"
    by (simp add: terminal_def regenerateImage_opts_def ex_images_ready_def ex_progress_def)
  have b: "list_all (nonterminal_line regenerateImage_opts)
             (concat [[NotData, Json (ex_progress 1)]] @ [Json (ex_progress 2)])"
    by (simp add: terminal_def regenerateImage_opts_def ex_progress_def)
  have c: "fst (handleRecord regenerateImage_opts (ex_images_ready ex_images)
             ((INITIAL_STATE\<lparr>phase := Running\<rparr>)
                \<lparr>progress := progress_after
                    (concat [[NotData, Json (ex_progress 1)]] @ [Json (ex_progress 2)])
                    (progress (INITIAL_STATE\<lparr>phase := Running\<rparr>))\<rparr>))
           = INITIAL_STATE\<lparr>phase := Cuts_review, images := Some ex_images\<rparr>"
    by (simp add: handleRecord_def regenerateImage_opts_def ex_images_ready_def ex_progress_def
        INITIAL_STATE_def truthy_str_def)
  show ?thesis
    using a b c
      first_terminal_record_ends_the_loop [OF a b,
        of "[Json ex_error_record]" "[[Json ex_complete_record]]" "INITIAL_STATE\<lparr>phase := Running\<rparr>"]
    by simp
qed

text \<open>
  C10. A \<^verbatim>\<open>complete\<close> record without a video url, and a stage-ready record for which the
  caller supplied no callback, is not terminal: the record is stored as the progress, the
  function does not return, and the loops go on with the next line.
\<close>

theorem unmatched_ready_records_are_progress:
  assumes "(status r = Some ''complete'' \<and> \<not> truthy_str (ev_videoUrl r))
           \<or> (status r = Some ''images_ready'' \<and> onImagesReady opts = None)
           \<or> (status r = Some ''videos_ready'' \<and> onVideosReady opts = None)
           \<or> (status r = Some ''voices_ready'' \<and> onVoicesReady opts = None)"
  shows "handleRecord opts r s = (s\<lparr>progress := Some r\<rparr>, False)
         \<and> forLines opts (Json r # rest) s = forLines opts rest (s\<lparr>progress := Some r\<rparr>)
         \<and> whileRead opts ((Json r # rest) # chunks) s
             = whileRead opts (rest # chunks) (s\<lparr>progress := Some r\<rparr>)"
proof -
  have "\<not> terminal opts r"
    unfolding terminal_def using assms by fastforce
  then have "handleRecord opts r s = (s\<lparr>progress := Some r\<rparr>, False)"
    by (rule handleRecord_progress)
  then show ?thesis by simp
qed

text \<open>
  The example: with the options of \<^verbatim>\<open>finalize\<close> (no callback), a \<^verbatim>\<open>complete\<close> record
  without url is stored as progress and the complete record behind it is still read.
\<close>

theorem unmatched_ready_records_are_progress_witness:
  "status ex_complete_no_url = Some ''complete''
   \<and> \<not> truthy_str (ev_videoUrl ex_complete_no_url)
   \<and> handleRecord no_opts ex_complete_no_url INITIAL_STATE
       = (INITIAL_STATE\<lparr>progress := Some ex_complete_no_url\<rparr>, False)
   \<and> forLines no_opts [Json ex_complete_no_url, Json ex_complete_record] INITIAL_STATE
       = (INITIAL_STATE\<lparr>phase := Complete, videoUrl := Some ''/out/final.mp4''\<rparr>, True)"
proof -
  have a: "status ex_complete_no_url = Some ''complete''"
    by (simp add: ex_complete_no_url_def)
  have b: "\<not> truthy_str (ev_videoUrl ex_complete_no_url)"
    by (simp add: ex_complete_no_url_def ex_progress_def truthy_str_def)
  have c: "forLines no_opts [Json ex_complete_record]
             (INITIAL_STATE\<lparr>progress := Some ex_complete_no_url\<rparr>)
           = (INITIAL_STATE\<lparr>phase := Complete, videoUrl := Some ''/out/final.mp4''\<rparr>, True)"
    by (simp add: handleRecord_def ex_complete_record_def ex_progress_def truthy_str_def
        INITIAL_STATE_def)
  from a b have d: "(status ex_complete_no_url = Some ''complete''
           \<and> \<not> truthy_str (ev_videoUrl ex_complete_no_url))
           \<or> (status ex_complete_no_url = Some ''images_ready'' \<and> onImagesReady no_opts = None)
           \<or> (status ex_complete_no_url = Some ''videos_ready'' \<and> onVideosReady no_opts = None)
           \<or> (status ex_complete_no_url = Some ''voices_ready'' \<and> onVoicesReady no_opts = None)"
    by blast
  show ?thesis
    using a b c
      unmatched_ready_records_are_progress [OF d, of INITIAL_STATE "[Json ex_complete_record]"]
    by simp
qed

section \<open>The run id is the only guard\<close>

lemma requests_catchError [simp]: "requests (catchError err h) = requests h"
  by (simp add: catchError_def setState_def)

lemma requests_setState [simp]: "requests (setState f h) = requests h"
  by (simp add: setState_def)

lemma state_issue [simp]: "state (issue r h) = state h"
  by (simp add: issue_def)

lemma requests_issue [simp]: "requests (issue r h) = requests h @ [r]"
  by (simp add: issue_def)

lemma state_setState [simp]: "state (setState f h) = f (state h)"
  by (simp add: setState_def)


lemma state_connectSSE [simp]: "state (fst (connectSSE rid opts co h)) = state h"
  by (simp add: connectSSE_def Let_def split: conn_outcome.splits)

lemma phase_catchError:
  "phase (state (catchError err h)) = (if err_name err = ''AbortError'' then phase (state h) else Error)"
  by (simp add: catchError_def)


lemma phase_postThenStream:
  "phase (state (postThenStream req rid opts po co h)) \<in> {phase (state h), Error}"
  by (cases "connectSSE rid opts co (issue req h)")
     (use state_connectSSE [of rid opts co "issue req h"] in
       \<open>auto simp: postThenStream_def Let_def phase_catchError split: post_outcome.splits option.splits\<close>)







section \<open>Reordering the images\<close>

lemma renderCutsPreview_order:
  "renderCutsPreview s = Some cp \<Longrightarrow>
     session cp = s \<and> (\<exists>imgs. images s = Some imgs \<and> imageOrder cp = map (\<lambda>img. Some (img_scene_id img)) imgs)"
  by (auto simp: renderCutsPreview_def split: option.splits if_splits)

text \<open>
  C8. For positions \<open>index\<close> and \<open>index + direction\<close> that are both in range,
  \<^verbatim>\<open>swapImages\<close> exchanges the two entries of \<^verbatim>\<open>imageOrder\<close> and changes nothing else: the
  session (script, images, videos, voices) and the rest of the component state are the
  same, and an order that was a permutation of the scene ids of the images still is one.
\<close>

theorem swapImages_only_reorders:
  assumes "0 \<le> index" and "index < int (length (imageOrder cp))"
    and "0 \<le> index + offset direction" and "index + offset direction < int (length (imageOrder cp))"
    and "images (session cp) = Some imgs"
    and "mset (imageOrder cp) = mset (map (\<lambda>img. Some (img_scene_id img)) imgs)"
  shows "swapImages index direction cp =
           cp\<lparr>imageOrder :=
                (imageOrder cp)[nat index := imageOrder cp ! nat (index + offset direction),
                                nat (index + offset direction) := imageOrder cp ! nat index]\<rparr>
         \<and> session (swapImages index direction cp) = session cp
         \<and> selectedScenes (swapImages index direction cp) = selectedScenes cp
         \<and> scenePrompts (swapImages index direction cp) = scenePrompts cp
         \<and> mset (imageOrder (swapImages index direction cp))
             = mset (map (\<lambda>img. Some (img_scene_id img)) imgs)"
proof -
  let ?t = "index + offset direction"
  have eq: "swapImages index direction cp =
           cp\<lparr>imageOrder :=
                (imageOrder cp)[nat index := imageOrder cp ! nat ?t,
                                nat ?t := imageOrder cp ! nat index]\<rparr>"
    using assms(1-4) by (simp add: swapImages_def Let_def js_get_def js_set_def)
  have i: "nat index < length (imageOrder cp)" and t: "nat ?t < length (imageOrder cp)"
    using assms(1-4) by simp_all
  have "mset ((imageOrder cp)[nat index := imageOrder cp ! nat ?t,
                                nat ?t := imageOrder cp ! nat index]) = mset (imageOrder cp)"
    using mset_swap [OF t i] by simp
  then show ?thesis
    using assms(6) by (simp add: eq)
qed

theorem swapImages_only_reorders_witness:
  "(0::int) \<le> 0 \<and> 0 < int (length (imageOrder ex_cuts_preview))
   \<and> 0 \<le> 0 + offset Plus_one \<and> 0 + offset Plus_one < int (length (imageOrder ex_cuts_preview))
   \<and> images (session ex_cuts_preview) = Some ex_images
   \<and> mset (imageOrder ex_cuts_preview) = mset (map (\<lambda>img. Some (img_scene_id img)) ex_images)
   \<and> imageOrder (swapImages 0 Plus_one ex_cuts_preview) = [Some 2, Some 1]
   \<and> session (swapImages 0 Plus_one ex_cuts_preview) = state ex_cuts_review"
proof -
  have a: "(0::int) \<le> 0" by simp
  have b: "0 < int (length (imageOrder ex_cuts_preview))"
    by (simp add: ex_cuts_preview_def)
  have c: "0 \<le> 0 + offset Plus_one"
    by (simp add: offset_def)
  have d: "0 + offset Plus_one < int (length (imageOrder ex_cuts_preview))"
    by (simp add: offset_def ex_cuts_preview_def)
  have e: "images (session ex_cuts_preview) = Some ex_images"
    by (simp add: ex_cuts_preview_def ex_cuts_review_eq)
  have f: "mset (imageOrder ex_cuts_preview) = mset (map (\<lambda>img. Some (img_scene_id img)) ex_images)"
    by (simp add: ex_cuts_preview_def ex_images_def)
  note g = swapImages_only_reorders [OF a b c d e f]
  have h: "imageOrder (swapImages 0 Plus_one ex_cuts_preview) = [Some 2, Some 1]"
    using g by (simp add: offset_def ex_cuts_preview_def)
  have i: "session (swapImages 0 Plus_one ex_cuts_preview) = state ex_cuts_review"
    using g by (simp add: ex_cuts_preview_def)
  show ?thesis
    using a b c d e f h i by blast
qed


section \<open>Scoped regeneration of images\<close>






section \<open>Cancellation\<close>

text \<open>
  C3 as stated fails: the second \<^verbatim>\<open>regenerateImage\<close> does not abort the controller of the
  first. Both connections are live, the abort reference holds the second, and the
  images-ready record of the first, superseded stream still replaces the images and moves
  the phase.
\<close>

theorem superseded_stream_stays_live:
  "live ex_regenerating 0
   \<and> abortRef ex_regenerating = Some 0
   \<and> abortRef ex_two_streams = Some 1
   \<and> live ex_two_streams 0 \<and> live ex_two_streams 1
   \<and> images (state ex_two_streams) = Some ex_images
   \<and> images (state (apply_event (EChunk 0 [Json (ex_images_ready [])]) ex_two_streams)) = Some []
   \<and> phase (state (apply_event (EChunk 0 [Json (ex_images_ready [])]) ex_two_streams)) = Cuts_review"
proof -
  have a: "live ex_regenerating 0 \<and> abortRef ex_regenerating = Some 0"
    by (simp add: ex_regenerating_eq live_def)
  have c: "abortRef ex_two_streams = Some 1 \<and> live ex_two_streams 0 \<and> live ex_two_streams 1
           \<and> images (state ex_two_streams) = Some ex_images"
    by (simp add: ex_two_streams_eq live_def)
  have d: "state (apply_event (EChunk 0 [Json (ex_images_ready [])]) ex_two_streams)
           = (state ex_two_streams)\<lparr>phase := Cuts_review, images := Some [], progress := None\<rparr>"
    by (simp add: ex_two_streams_eq deliver_def dropConsumer_def handleRecord_def
        regenerateImage_opts_def ex_images_ready_def ex_progress_def truthy_str_def)
  show ?thesis
    using a c d by simp
qed

subsection \<open>conns only grows under streamed actions\<close>

lemma live_append: "live h c \<Longrightarrow> conns h' = conns h @ ext \<Longrightarrow> live h' c"
  by (simp add: live_def nth_append)

lemma conns_setState [simp]: "conns (setState f h) = conns h"
  by (simp add: setState_def)

lemma conns_issue [simp]: "conns (issue r h) = conns h"
  by (simp add: issue_def)

lemma conns_catchError [simp]: "conns (catchError err h) = conns h"
  by (simp add: catchError_def)

lemma conns_restoreCatch [simp]: "conns (restoreCatch err h) = conns h"
  by (simp add: restoreCatch_def)

lemma abortRef_setState [simp]: "abortRef (setState f h) = abortRef h"
  by (simp add: setState_def)

lemma abortRef_issue [simp]: "abortRef (issue r h) = abortRef h"
  by (simp add: issue_def)

lemma abortRef_catchError [simp]: "abortRef (catchError err h) = abortRef h"
  by (simp add: catchError_def)

lemma conns_connectSSE:
  "\<exists>new. conns (fst (connectSSE rid opts co h)) = conns h @ [new]"
  by (simp add: connectSSE_def Let_def split: conn_outcome.splits)

lemma abortRef_connectSSE:
  "abortRef (fst (connectSSE rid opts co h)) = Some (length (conns h))"
  by (simp add: connectSSE_def Let_def issue_def split: conn_outcome.splits)

lemma conns_postThenStream:
  "\<exists>ext. conns (postThenStream req rid opts po co h) = conns h @ ext"
proof (cases "connectSSE rid opts co (issue req h)")
  case (Pair h2 err)
  from conns_connectSSE [of rid opts co "issue req h"] Pair
  obtain new where "conns h2 = conns h @ [new]"
    by auto
  then show ?thesis
    using Pair
    by (auto simp: postThenStream_def Let_def split: post_outcome.splits option.splits)
qed

lemma abortRef_postThenStream:
  "abortRef (postThenStream req rid opts po co h) = abortRef h
   \<or> abortRef (postThenStream req rid opts po co h) = Some (length (conns h))"
proof (cases "connectSSE rid opts co (issue req h)")
  case (Pair h2 err)
  from abortRef_connectSSE [of rid opts co "issue req h"] Pair
  have "abortRef h2 = Some (length (conns h))"
    by auto
  then show ?thesis
    using Pair
    by (auto simp: postThenStream_def Let_def split: post_outcome.splits option.splits)
qed

lemma conns_streamed:
  "streamed e \<Longrightarrow> \<exists>ext. conns (apply_event e h) = conns h @ ext"
proof (cases e)
  case (EConfirm editedScript po co)
  show ?thesis
    using conns_postThenStream [where h = "setState (\<lambda>s. s\<lparr>phase := Running, progress := None\<rparr>) h"]
    unfolding EConfirm
    by (auto simp: confirm_def Let_def split: option.splits)
next
  case (ECompose sceneOrder po co)
  show ?thesis
    using conns_postThenStream [where h = "setState (\<lambda>s. s\<lparr>phase := Composing, progress := None\<rparr>) h"]
    unfolding ECompose
    by (auto simp: compose_def split: option.splits)
next
  case (EGenerateVoices po co)
  show ?thesis
    using conns_postThenStream [where h = "setState (\<lambda>s. s\<lparr>phase := Composing, progress := None\<rparr>) h"]
    unfolding EGenerateVoices
    by (auto simp: generateVoices_def split: option.splits)
next
  case (ERegenerateImage si po co)
  show ?thesis
    using conns_postThenStream [where h = "setState (\<lambda>s. s\<lparr>phase := Running, progress := None\<rparr>) h"]
    unfolding ERegenerateImage
    by (auto simp: regenerateImage_def split: option.splits)
next
  case (ERegenerateVideo si po co)
  show ?thesis
    using conns_postThenStream [where h = "setState (\<lambda>s. s\<lparr>phase := Composing, progress := None\<rparr>) h"]
    unfolding ERegenerateVideo
    by (auto simp: regenerateVideo_def split: option.splits)
next
  case (EFinalize trans_arg telop po co)
  show ?thesis
    using conns_postThenStream
      [where h = "setState (\<lambda>s. s\<lparr>phase := Finalizing, progress := None,
                     transitions := (case trans_arg of None \<Rightarrow> transitions s | Some t \<Rightarrow> Some t)\<rparr>) h"]
    unfolding EFinalize
    by (auto simp: finalize_def split: option.splits)
next
  case (ERegenerateVoices vdata po co)
  show ?thesis
    using conns_postThenStream [where h = "setState (\<lambda>s. s\<lparr>phase := Composing, progress := None\<rparr>) h"]
    unfolding ERegenerateVoices
    by (auto simp: regenerateVoices_def split: option.splits)
qed simp_all


lemma abortRef_streamed:
  "streamed e \<Longrightarrow>
     abortRef (apply_event e h) = abortRef h \<or> abortRef (apply_event e h) = Some (length (conns h))"
proof (cases e)
  case (EConfirm editedScript po co)
  show ?thesis
    using abortRef_postThenStream [where h = "setState (\<lambda>s. s\<lparr>phase := Running, progress := None\<rparr>) h"]
    unfolding EConfirm
    by (auto simp: confirm_def Let_def split: option.splits)
next
  case (ECompose sceneOrder po co)
  show ?thesis
    using abortRef_postThenStream [where h = "setState (\<lambda>s. s\<lparr>phase := Composing, progress := None\<rparr>) h"]
    unfolding ECompose
    by (auto simp: compose_def split: option.splits)
next
  case (EGenerateVoices po co)
  show ?thesis
    using abortRef_postThenStream [where h = "setState (\<lambda>s. s\<lparr>phase := Composing, progress := None\<rparr>) h"]
    unfolding EGenerateVoices
    by (auto simp: generateVoices_def split: option.splits)
next
  case (ERegenerateImage si po co)
  show ?thesis
    using abortRef_postThenStream [where h = "setState (\<lambda>s. s\<lparr>phase := Running, progress := None\<rparr>) h"]
    unfolding ERegenerateImage
    by (auto simp: regenerateImage_def split: option.splits)
next
  case (ERegenerateVideo si po co)
  show ?thesis
    using abortRef_postThenStream [where h = "setState (\<lambda>s. s\<lparr>phase := Composing, progress := None\<rparr>) h"]
    unfolding ERegenerateVideo
    by (auto simp: regenerateVideo_def split: option.splits)
next
  case (EFinalize trans_arg telop po co)
  show ?thesis
    using abortRef_postThenStream
      [where h = "setState (\<lambda>s. s\<lparr>phase := Finalizing, progress := None,
                     transitions := (case trans_arg of None \<Rightarrow> transitions s | Some t \<Rightarrow> Some t)\<rparr>) h"]
    unfolding EFinalize
    by (auto simp: finalize_def split: option.splits)
next
  case (ERegenerateVoices vdata po co)
  show ?thesis
    using abortRef_postThenStream [where h = "setState (\<lambda>s. s\<lparr>phase := Composing, progress := None\<rparr>) h"]
    unfolding ERegenerateVoices
    by (auto simp: regenerateVoices_def split: option.splits)
qed simp_all

subsection \<open>The cancelling actions\<close>

lemma not_live_abortHeld: "abortRef h = Some c \<Longrightarrow> \<not> live (abortHeld h) c"
  by (simp add: abortHeld_def live_def)

lemma live_conns: "conns h' = conns h \<Longrightarrow> live h' c = live h c"
  by (simp add: live_def)

lemma conns_cancelling: "cancelling e \<Longrightarrow> conns (apply_event e h) = conns (abortHeld h)"
  by (cases e)
     (auto simp: start_def Let_def reset_def goToScriptReview_def goToCutsReview_def
        goToVideosReview_def goToVoicesReview_def split: start_outcome.splits)

subsection \<open>An aborted signal stays aborted\<close>

lemma keeps_aborted_refl [simp]: "keeps_aborted h h"
  by (simp add: keeps_aborted_def)

lemma keeps_aborted_trans: "keeps_aborted h h' \<Longrightarrow> keeps_aborted h' h'' \<Longrightarrow> keeps_aborted h h''"
  by (auto simp: keeps_aborted_def)

lemma keeps_aborted_conns: "conns h' = conns h \<Longrightarrow> keeps_aborted h h'"
  by (simp add: keeps_aborted_def)

lemma keeps_aborted_append: "conns h' = conns h @ ext \<Longrightarrow> keeps_aborted h h'"
  by (simp add: keeps_aborted_def nth_append)

lemma keeps_aborted_abortHeld: "keeps_aborted h (abortHeld h)"
  by (auto simp: keeps_aborted_def abortHeld_def nth_list_update split: option.splits)

lemma aborted_nth_drop:
  "aborted (xs[c := (xs ! c)\<lparr>consumer := None\<rparr>] ! k) = aborted (xs ! k)"
proof (cases "c < length xs")
  case True
  then show ?thesis
    by (cases "k = c") (simp_all add: nth_list_update)
next
  case False
  then have "xs[c := (xs ! c)\<lparr>consumer := None\<rparr>] = xs"
    by (intro list_update_beyond) simp
  then show ?thesis
    by simp
qed

lemma keeps_aborted_dropConsumer: "keeps_aborted h (dropConsumer c h)"
  by (simp add: keeps_aborted_def dropConsumer_def aborted_nth_drop)

lemma keeps_aborted_deliver: "keeps_aborted h (deliver c ls h)"
proof -
  have 1: "keeps_aborted h (dropConsumer c (h\<lparr>state := s'\<rparr>))" for s'
    by (simp add: keeps_aborted_def dropConsumer_def aborted_nth_drop)
  have 2: "keeps_aborted h (h\<lparr>state := s'\<rparr>)" for s'
    by (simp add: keeps_aborted_def)
  show ?thesis
    using 1 2 keeps_aborted_dropConsumer [of h c]
    by (auto simp: deliver_def split: option.splits prod.splits bool.splits)
qed

lemma keeps_aborted_streamDone: "keeps_aborted h (streamDone c h)"
  by (simp add: streamDone_def keeps_aborted_dropConsumer)

lemma keeps_aborted_streamFails: "keeps_aborted h (streamFails c err h)"
proof -
  have "keeps_aborted h (catchError err (dropConsumer c h))"
    by (rule keeps_aborted_trans [OF keeps_aborted_dropConsumer [of h c]])
       (simp add: keeps_aborted_conns)
  then show ?thesis
    by (simp add: streamFails_def keeps_aborted_dropConsumer)
qed

lemma keeps_aborted_apply_event: "keeps_aborted h (apply_event e h)"
proof (cases "streamed e")
  case True
  then show ?thesis
    using conns_streamed [of e h] by (auto intro: keeps_aborted_append)
next
  case notstreamed: False
  show ?thesis
  proof (cases "cancelling e")
    case True
    then have "keeps_aborted (abortHeld h) (apply_event e h)"
      by (simp add: conns_cancelling keeps_aborted_conns)
    then show ?thesis
      by (rule keeps_aborted_trans [OF keeps_aborted_abortHeld])
  next
    case False
    then show ?thesis
      using notstreamed
      by (cases e)
         (auto simp: keeps_aborted_deliver keeps_aborted_streamDone keeps_aborted_streamFails
            goToTransitionEdit_def restoreFromHistory_def Let_def
            intro!: keeps_aborted_conns split: restore_outcome.splits)
  qed
qed

lemma keeps_aborted_run_from: "keeps_aborted h (run_from h es)"
  unfolding run_from_def
proof (induction es arbitrary: h)
  case Nil
  show ?case by simp
next
  case (Cons e es)
  show ?case
    using keeps_aborted_trans [OF keeps_aborted_apply_event [of h e] Cons [of "apply_event e h"]]
    by simp
qed

lemma reads_on_aborted:
  assumes "c < length (conns h)" and "aborted (conns h ! c)"
  shows "state (deliver c ls h) = state h"
    and "state (streamDone c h) = state h"
    and "state (streamFails c err h) = state h"
  using assms
  by (auto simp: deliver_def streamDone_def streamFails_def dropConsumer_def split: option.splits)

lemma deliver_live:
  assumes "c < length (conns h)" and "consumer (conns h ! c) = Some opts"
    and "\<not> aborted (conns h ! c)"
  shows "state (deliver c ls h) = fst (forLines opts ls (state h))"
  using assms
  by (cases "forLines opts ls (state h)")
     (auto simp: deliver_def dropConsumer_def split: bool.splits)

text \<open>
  C3 (as amended). A streamed action (confirm, compose, generateVoices, regenerateImage,
  regenerateVideo, finalize, regenerateVoices) cancels nothing: every connection of the
  store, its abort signal included, is after it as it was before, every connection that was
  live is still live, and the abort reference is either unchanged or the fresh controller of
  the new connection. A chunk read on a live connection is handled with the options of that
  connection, whether or not the abort reference still holds its controller. Start, reset
  and the four go-to-review navigations do cancel: after them the connection whose
  controller was held is not live. Once a signal is aborted it stays aborted through every
  later event, and no read of that connection (a chunk, the end of the stream, a failure)
  changes the session state.
\<close>

theorem streamed_actions_cancel_nothing:
  "(streamed e \<longrightarrow>
      (\<forall>k<length (conns h). conns (apply_event e h) ! k = conns h ! k)
      \<and> (abortRef (apply_event e h) = abortRef h
          \<or> abortRef (apply_event e h) = Some (length (conns h))))
   \<and> (streamed e \<and> live h c \<longrightarrow> live (apply_event e h) c)
   \<and> (c < length (conns h) \<and> consumer (conns h ! c) = Some opts \<and> \<not> aborted (conns h ! c) \<longrightarrow>
        state (apply_event (EChunk c ls) h) = fst (forLines opts ls (state h)))
   \<and> (cancelling e \<and> abortRef h = Some c \<longrightarrow> \<not> live (apply_event e h) c)
   \<and> (c < length (conns h) \<and> aborted (conns h ! c) \<longrightarrow>
        \<not> live (run_from h es) c
        \<and> state (apply_event (EChunk c ls) (run_from h es)) = state (run_from h es)
        \<and> state (apply_event (EDone c) (run_from h es)) = state (run_from h es)
        \<and> state (apply_event (EReadFails c err) (run_from h es)) = state (run_from h es))"
proof (intro conjI impI)
  assume a: "streamed e"
  then obtain ext where "conns (apply_event e h) = conns h @ ext"
    using conns_streamed by blast
  then show "\<forall>k<length (conns h). conns (apply_event e h) ! k = conns h ! k"
    by (simp add: nth_append)
  show "abortRef (apply_event e h) = abortRef h
          \<or> abortRef (apply_event e h) = Some (length (conns h))"
    using a abortRef_streamed by blast
next
  assume a: "streamed e \<and> live h c"
  then obtain ext where "conns (apply_event e h) = conns h @ ext"
    using conns_streamed by blast
  then show "live (apply_event e h) c"
    using a live_append by blast
next
  assume "c < length (conns h) \<and> consumer (conns h ! c) = Some opts \<and> \<not> aborted (conns h ! c)"
  then show "state (apply_event (EChunk c ls) h) = fst (forLines opts ls (state h))"
    using deliver_live [of c h opts ls] by simp
next
  assume "cancelling e \<and> abortRef h = Some c"
  then show "\<not> live (apply_event e h) c"
    using conns_cancelling [of e h] not_live_abortHeld [of h c]
      live_conns [of "apply_event e h" "abortHeld h" c] by simp
next
  assume "c < length (conns h) \<and> aborted (conns h ! c)"
  then have c: "c < length (conns (run_from h es))" and a: "aborted (conns (run_from h es) ! c)"
    using keeps_aborted_run_from [of h es] by (auto simp: keeps_aborted_def)
  show "\<not> live (run_from h es) c"
    using a by (simp add: live_def)
  show "state (apply_event (EChunk c ls) (run_from h es)) = state (run_from h es)"
    using reads_on_aborted(1) [OF c a] by simp
  show "state (apply_event (EDone c) (run_from h es)) = state (run_from h es)"
    using reads_on_aborted(2) [OF c a] by simp
  show "state (apply_event (EReadFails c err) (run_from h es)) = state (run_from h es)"
    using reads_on_aborted(3) [OF c a] by simp
qed

text \<open>
  The examples: the first stream stays live under a second regeneration, and its
  images-ready record is handled though the reference holds the second controller; a
  navigation cancels the held stream, whose record then changes nothing.
\<close>

theorem streamed_actions_cancel_nothing_witness:
  "streamed (ERegenerateImage [(2, ''darker'')] (Responded True 200) (ConnResponded True True))
   \<and> live ex_regenerating 0
   \<and> live (apply_event (ERegenerateImage [(2, ''darker'')] (Responded True 200)
                          (ConnResponded True True)) ex_regenerating) 0
   \<and> 0 < length (conns ex_two_streams)
   \<and> consumer (conns ex_two_streams ! 0) = Some regenerateImage_opts
   \<and> \<not> aborted (conns ex_two_streams ! 0)
   \<and> abortRef ex_two_streams = Some 1
   \<and> images (state (apply_event (EChunk 0 [Json (ex_images_ready [])]) ex_two_streams)) = Some []
   \<and> cancelling EGoToCutsReview \<and> abortRef ex_regenerating = Some 0
   \<and> \<not> live (apply_event EGoToCutsReview ex_regenerating) 0
   \<and> 0 < length (conns ex_cancelled) \<and> aborted (conns ex_cancelled ! 0)
   \<and> state (apply_event (EChunk 0 [Json (ex_images_ready [])])
               (run_from ex_cancelled [EGoToTransitionEdit]))
       = state (run_from ex_cancelled [EGoToTransitionEdit])"
proof -
  let ?e = "ERegenerateImage [(2, ''darker'')] (Responded True 200) (ConnResponded True True)"
  have a: "streamed ?e \<and> live ex_regenerating 0"
    by (simp add: ex_regenerating_eq live_def)
  have b: "cancelling EGoToCutsReview \<and> abortRef ex_regenerating = Some 0"
    by (simp add: ex_regenerating_eq)
  have c: "0 < length (conns ex_cancelled) \<and> aborted (conns ex_cancelled ! 0)"
    by (simp add: ex_cancelled_eq)
  have d: "0 < length (conns ex_two_streams)
           \<and> consumer (conns ex_two_streams ! 0) = Some regenerateImage_opts
           \<and> \<not> aborted (conns ex_two_streams ! 0)"
    and d': "abortRef ex_two_streams = Some 1"
    by (simp_all add: ex_two_streams_eq)
  from streamed_actions_cancel_nothing [of ?e ex_regenerating 0] a
  have 1: "live (apply_event ?e ex_regenerating) 0"
    by blast
  from streamed_actions_cancel_nothing [of EGoToCutsReview ex_regenerating 0] b
  have 2: "\<not> live (apply_event EGoToCutsReview ex_regenerating) 0"
    by blast
  from streamed_actions_cancel_nothing
         [of _ ex_cancelled 0 _ "[Json (ex_images_ready [])]" "[EGoToTransitionEdit]"] c
  have 3: "state (apply_event (EChunk 0 [Json (ex_images_ready [])])
               (run_from ex_cancelled [EGoToTransitionEdit]))
       = state (run_from ex_cancelled [EGoToTransitionEdit])"
    by blast
  from streamed_actions_cancel_nothing
         [of _ ex_two_streams 0 regenerateImage_opts "[Json (ex_images_ready [])]"] d
  have "state (apply_event (EChunk 0 [Json (ex_images_ready [])]) ex_two_streams)
          = fst (forLines regenerateImage_opts [Json (ex_images_ready [])] (state ex_two_streams))"
    by blast
  then have 4: "images (state (apply_event (EChunk 0 [Json (ex_images_ready [])]) ex_two_streams))
                  = Some []"
    by (simp add: handleRecord_def regenerateImage_opts_def ex_images_ready_def ex_progress_def
        truthy_str_def)
  show ?thesis
    using a b c d d' 1 2 3 4 by blast
qed


section \<open>Phase and terminal fields in reachable states\<close>

lemma truthy_or_else [simp]: "fb \<noteq> [] \<Longrightarrow> truthy_str (Some (or_else v fb))"
  by (simp add: truthy_str_def or_else_def split: option.splits)

lemma hook_inv_state:
  "hook_inv h \<Longrightarrow> phase_fields_ok s \<Longrightarrow> hook_inv (h\<lparr>state := s\<rparr>)"
  by (simp add: hook_inv_def)

lemma hook_inv_setState:
  "hook_inv h \<Longrightarrow> phase_fields_ok (f (state h)) \<Longrightarrow> hook_inv (setState f h)"
  by (simp add: hook_inv_def setState_def)

lemma hook_inv_issue [simp]: "hook_inv (issue r h) = hook_inv h"
  by (simp add: hook_inv_def issue_def)

lemma set_update_consumer:
  assumes "c \<in> set (xs[i := (xs ! i)\<lparr>aborted := b\<rparr>])"
  shows "\<exists>d\<in>set xs. consumer c = consumer d"
proof (cases "i < length xs")
  case True
  from assms set_update_subset_insert [of xs i "(xs ! i)\<lparr>aborted := b\<rparr>"]
  have "c = (xs ! i)\<lparr>aborted := b\<rparr> \<or> c \<in> set xs"
    by auto
  then show ?thesis
    using True nth_mem [OF True] by auto
next
  case False
  then have "xs[i := (xs ! i)\<lparr>aborted := b\<rparr>] = xs"
    by (intro list_update_beyond) simp
  then show ?thesis
    using assms by auto
qed

lemma hook_inv_abortHeld: "hook_inv h \<Longrightarrow> hook_inv (abortHeld h)"
  unfolding hook_inv_def abortHeld_def
  by (auto split: option.splits dest!: set_update_consumer)

lemma set_drop_consumer:
  assumes "c \<in> set (xs[i := (xs ! i)\<lparr>consumer := None\<rparr>])"
  shows "consumer c = None \<or> c \<in> set xs"
proof -
  from assms set_update_subset_insert [of xs i "(xs ! i)\<lparr>consumer := None\<rparr>"]
  have "c = (xs ! i)\<lparr>consumer := None\<rparr> \<or> c \<in> set xs"
    by auto
  then show ?thesis
    by auto
qed

lemma hook_inv_dropConsumer: "hook_inv h \<Longrightarrow> hook_inv (dropConsumer c h)"
  unfolding hook_inv_def dropConsumer_def
  by (auto dest!: set_drop_consumer)

lemma phase_fields_error:
  "truthy_str e \<Longrightarrow> phase_fields_ok (s\<lparr>phase := Error, error := e\<rparr>)"
  by (simp add: phase_fields_ok_def)

lemma hook_inv_catchError: "hook_inv h \<Longrightarrow> hook_inv (catchError err h)"
  by (simp add: catchError_def hook_inv_setState phase_fields_error)

lemma hook_inv_restoreCatch: "hook_inv h \<Longrightarrow> hook_inv (restoreCatch err h)"
  by (simp add: restoreCatch_def hook_inv_setState phase_fields_error RESTORE_FAILED_def)

lemma hook_inv_connectSSE:
  "hook_inv h \<Longrightarrow> callbacks_ok opts \<Longrightarrow> hook_inv (fst (connectSSE rid opts co h))"
  unfolding hook_inv_def connectSSE_def
  by (auto simp: Let_def issue_def split: conn_outcome.splits)

lemma hook_inv_postThenStream:
  assumes "hook_inv h" and "callbacks_ok opts"
  shows "hook_inv (postThenStream req rid opts po co h)"
proof -
  have 1: "hook_inv (issue req h)"
    using assms(1) by simp
  have 2: "hook_inv (fst (connectSSE rid opts co (issue req h)))"
    using 1 assms(2) by (rule hook_inv_connectSSE)
  show ?thesis
    using 1 2
    by (cases "connectSSE rid opts co (issue req h)")
       (auto simp: postThenStream_def Let_def hook_inv_catchError
          split: post_outcome.splits option.splits)
qed

lemma phase_fields_other:
  "p \<noteq> Error \<Longrightarrow> p \<noteq> Complete \<Longrightarrow> phase s' = p \<Longrightarrow> phase_fields_ok s'"
  by (simp add: phase_fields_ok_def)

lemma phase_fields_progress:
  "phase_fields_ok s \<Longrightarrow> phase_fields_ok (s\<lparr>progress := p\<rparr>)"
  by (simp add: phase_fields_ok_def)

lemma phase_fields_handleRecord:
  assumes "phase_fields_ok s" and "callbacks_ok opts"
  shows "phase_fields_ok (fst (handleRecord opts r s))"
proof -
  have i: "phase_fields_ok (cb x s)" if "onImagesReady opts = Some cb" for cb x
    using that assms(2) by (auto simp: callbacks_ok_def intro: phase_fields_other [of Cuts_review])
  have v: "phase_fields_ok (cb x s)" if "onVideosReady opts = Some cb" for cb x
    using that assms(2) by (auto simp: callbacks_ok_def intro: phase_fields_other [of Videos_review])
  have w: "phase_fields_ok (cb x s)" if "onVoicesReady opts = Some cb" for cb x
    using that assms(2) by (auto simp: callbacks_ok_def intro: phase_fields_other [of Voices_review])
  have c: "truthy_str u \<Longrightarrow> phase_fields_ok (s\<lparr>phase := Complete, videoUrl := u, progress := None\<rparr>)" for u
    by (simp add: phase_fields_ok_def)
  show ?thesis
    using i v w c assms(1)
    by (auto simp: handleRecord_def phase_fields_error phase_fields_progress)
qed

lemma phase_fields_forLines:
  "phase_fields_ok s \<Longrightarrow> callbacks_ok opts \<Longrightarrow> phase_fields_ok (fst (forLines opts ls s))"
proof (induction ls arbitrary: s)
  case Nil
  then show ?case by simp
next
  case (Cons l ls)
  show ?case
  proof (cases l)
    case (Json data)
    have h: "phase_fields_ok (fst (handleRecord opts data s))"
      using Cons.prems by (rule phase_fields_handleRecord)
    show ?thesis
    proof (cases "handleRecord opts data s")
      case (Pair s' stop)
      then show ?thesis
        using h Json Cons.IH [of s'] Cons.prems(2) by (cases stop) simp_all
    qed
  next
    case NotData
    then show ?thesis using Cons by simp
  next
    case EmptyData
    then show ?thesis using Cons by simp
  next
    case Malformed
    then show ?thesis using Cons by simp
  qed
qed

lemma consumer_callbacks_ok:
  "hook_inv h \<Longrightarrow> c < length (conns h) \<Longrightarrow> consumer (conns h ! c) = Some opts \<Longrightarrow> callbacks_ok opts"
  by (auto simp: hook_inv_def)

lemma hook_inv_deliver:
  assumes "hook_inv h"
  shows "hook_inv (deliver c ls h)"
proof (cases "c < length (conns h)")
  case False
  then show ?thesis using assms by (simp add: deliver_def)
next
  case True
  show ?thesis
  proof (cases "consumer (conns h ! c)")
    case None
    then show ?thesis using assms True by (simp add: deliver_def)
  next
    case (Some opts)
    have ok: "callbacks_ok opts"
      using assms True Some by (rule consumer_callbacks_ok)
    have pf: "phase_fields_ok (fst (forLines opts ls (state h)))"
      using assms ok by (simp add: hook_inv_def phase_fields_forLines)
    have st: "hook_inv (h\<lparr>state := fst (forLines opts ls (state h))\<rparr>)"
      using assms pf by (rule hook_inv_state)
    show ?thesis
      using True Some st assms
      by (cases "forLines opts ls (state h)")
         (auto simp: deliver_def hook_inv_dropConsumer split: bool.splits)
  qed
qed

lemma hook_inv_streamDone: "hook_inv h \<Longrightarrow> hook_inv (streamDone c h)"
  by (simp add: streamDone_def hook_inv_dropConsumer)

lemma hook_inv_streamFails: "hook_inv h \<Longrightarrow> hook_inv (streamFails c err h)"
  by (simp add: streamFails_def hook_inv_dropConsumer hook_inv_catchError)

lemma phase_fields_restored: "phase_fields_ok (restoredState data)"
  by (simp add: phase_fields_ok_def restoredState_def INITIAL_STATE_def Let_def)


lemma callbacks_ok_no_opts: "callbacks_ok no_opts"
  by (simp add: callbacks_ok_def no_opts_def)

lemma phase_fields_running: "phase_fields_ok (s\<lparr>phase := Running, progress := None\<rparr>)"
  by (simp add: phase_fields_ok_def)

lemma phase_fields_composing: "phase_fields_ok (s\<lparr>phase := Composing, progress := None\<rparr>)"
  by (simp add: phase_fields_ok_def)

lemma hook_inv_start: "hook_inv h \<Longrightarrow> hook_inv (start params outcome h)"
  by (auto simp: start_def Let_def phase_fields_ok_def INITIAL_STATE_def
        intro!: hook_inv_setState hook_inv_catchError hook_inv_abortHeld
        split: start_outcome.splits)

lemma hook_inv_confirm: "hook_inv h \<Longrightarrow> hook_inv (confirm editedScript po co h)"
  by (auto simp: confirm_def Let_def phase_fields_ok_def callbacks_ok_def
        intro!: hook_inv_setState hook_inv_postThenStream split: option.splits)

lemma hook_inv_compose: "hook_inv h \<Longrightarrow> hook_inv (compose sceneOrder po co h)"
  by (auto simp: compose_def phase_fields_ok_def callbacks_ok_def
        intro!: hook_inv_setState hook_inv_postThenStream split: option.splits)

lemma hook_inv_generateVoices: "hook_inv h \<Longrightarrow> hook_inv (generateVoices po co h)"
  by (auto simp: generateVoices_def phase_fields_ok_def callbacks_ok_def
        intro!: hook_inv_setState hook_inv_postThenStream split: option.splits)

lemma hook_inv_regenerateImage: "hook_inv h \<Longrightarrow> hook_inv (regenerateImage si po co h)"
  by (auto simp: regenerateImage_def regenerateImage_opts_def phase_fields_ok_def callbacks_ok_def
        intro!: hook_inv_setState hook_inv_postThenStream split: option.splits)

lemma hook_inv_regenerateVideo: "hook_inv h \<Longrightarrow> hook_inv (regenerateVideo si po co h)"
  by (auto simp: regenerateVideo_def phase_fields_ok_def callbacks_ok_def
        intro!: hook_inv_setState hook_inv_postThenStream split: option.splits)

lemma hook_inv_regenerateVoices: "hook_inv h \<Longrightarrow> hook_inv (regenerateVoices vdata po co h)"
  by (auto simp: regenerateVoices_def phase_fields_ok_def callbacks_ok_def
        intro!: hook_inv_setState hook_inv_postThenStream split: option.splits)

lemma hook_inv_finalize: "hook_inv h \<Longrightarrow> hook_inv (finalize trans_arg telop po co h)"
  by (auto simp: finalize_def phase_fields_ok_def callbacks_ok_no_opts
        intro!: hook_inv_setState hook_inv_postThenStream split: option.splits)

lemma hook_inv_goTo:
  "hook_inv h \<Longrightarrow> hook_inv (goToTransitionEdit h)"
  "hook_inv h \<Longrightarrow> hook_inv (goToScriptReview h)"
  "hook_inv h \<Longrightarrow> hook_inv (goToCutsReview h)"
  "hook_inv h \<Longrightarrow> hook_inv (goToVideosReview h)"
  "hook_inv h \<Longrightarrow> hook_inv (goToVoicesReview h)"
  "hook_inv h \<Longrightarrow> hook_inv (reset h)"
  by (auto simp: goToTransitionEdit_def goToScriptReview_def goToCutsReview_def
        goToVideosReview_def goToVoicesReview_def reset_def phase_fields_ok_def INITIAL_STATE_def
        intro!: hook_inv_setState hook_inv_abortHeld)

lemma phase_fields_initial_running: "phase_fields_ok (INITIAL_STATE\<lparr>phase := Running\<rparr>)"
  by (simp add: phase_fields_ok_def)

lemma hook_inv_restoreFromHistory:
  assumes "hook_inv h"
  shows "hook_inv (restoreFromHistory rid outcome h)"
proof -
  let ?h1 = "issue (PostRestore rid) (setState (\<lambda>_. INITIAL_STATE\<lparr>phase := Running\<rparr>) h)"
  have 1: "hook_inv ?h1"
    using assms by (simp add: hook_inv_setState phase_fields_initial_running)
  have 2: "hook_inv (restoreCatch err ?h1)" for err
    using 1 by (rule hook_inv_restoreCatch)
  have 3: "hook_inv (setState (\<lambda>_. restoredState data) ?h1)" for data
    using 1 by (simp add: hook_inv_setState phase_fields_restored)
  show ?thesis
    using 2 3 by (simp add: restoreFromHistory_def Let_def split: restore_outcome.splits)
qed

lemma hook_inv_apply_event: "hook_inv h \<Longrightarrow> hook_inv (apply_event e h)"
  by (cases e)
     (simp_all add: hook_inv_start hook_inv_confirm hook_inv_compose hook_inv_generateVoices
        hook_inv_regenerateImage hook_inv_regenerateVideo hook_inv_regenerateVoices
        hook_inv_finalize hook_inv_goTo hook_inv_restoreFromHistory hook_inv_deliver
        hook_inv_streamDone hook_inv_streamFails)

lemma hook_inv_run_from: "hook_inv h \<Longrightarrow> hook_inv (run_from h es)"
  unfolding run_from_def
  by (induction es arbitrary: h) (simp_all add: hook_inv_apply_event)

lemma hook_inv_initial: "hook_inv initial_hook"
  by (simp add: hook_inv_def initial_hook_def phase_fields_ok_def INITIAL_STATE_def)

text \<open>
  C6 (as amended). In every state that a run of the hook reaches: in phase \<^verbatim>\<open>error\<close> the
  error is a non-empty string; in phase \<^verbatim>\<open>complete\<close> the video url is a non-empty string,
  or the state has no script and no non-empty list of images, videos or voices (a restore
  of a bundle without artifacts, which keeps the default phase).
\<close>

theorem reachable_phase_fields:
  "(phase (state (run es)) = Error \<longrightarrow> truthy_str (error (state (run es))))
   \<and> (phase (state (run es)) = Complete \<longrightarrow>
        truthy_str (videoUrl (state (run es)))
        \<or> (script (state (run es)) = None \<and> \<not> nonempty (images (state (run es)))
            \<and> \<not> nonempty (videos (state (run es))) \<and> \<not> nonempty (voices (state (run es)))))"
  using hook_inv_run_from [OF hook_inv_initial, of es]
  by (simp add: run_def hook_inv_def phase_fields_ok_def)


text \<open>
  C6 as stated fails twice: the restore of an empty bundle is in phase \<^verbatim>\<open>complete\<close> with
  no video url; and an error after a completed run leaves both the video url and the error
  set.
\<close>

theorem complete_without_video_and_error_with_video:
  "phase (state (run ex_restore_empty)) = Complete
   \<and> videoUrl (state (run ex_restore_empty)) = None
   \<and> phase (state (run ex_error_after_complete)) = Error
   \<and> error (state (run ex_error_after_complete)) = Some ''API error: 500''
   \<and> videoUrl (state (run ex_error_after_complete)) = Some ''/out/final.mp4''"
  by (simp add: ex_error_after_complete_state ex_restore_empty_state INITIAL_STATE_def)

theorem reachable_phase_fields_witness:
  "phase (state (run ex_error_after_complete)) = Error
   \<and> truthy_str (error (state (run ex_error_after_complete)))
   \<and> phase (state (run ex_restore_final)) = Complete
   \<and> truthy_str (videoUrl (state (run ex_restore_final)))"
proof -
  have a: "phase (state (run ex_error_after_complete)) = Error"
    by (simp add: ex_error_after_complete_state)
  have b: "phase (state (run ex_restore_final)) = Complete"
    by (simp add: ex_restore_final_state)
  have c: "script (state (run ex_restore_final)) \<noteq> None"
    by (simp add: ex_restore_final_state)
  from reachable_phase_fields [of ex_error_after_complete] a
  have 1: "truthy_str (error (state (run ex_error_after_complete)))"
    by blast
  from reachable_phase_fields [of ex_restore_final] b c
  have 2: "truthy_str (videoUrl (state (run ex_restore_final)))"
    by blast
  show ?thesis
    using a b 1 2 by blast
qed


end
